theory Spec2Isabelle
  imports Main
begin

section \<open>JavaScript values\<close>

text \<open>
  The two scripts (\<^verbatim>\<open>scripts/collect.mjs\<close> and \<^verbatim>\<open>scripts/fetch.mjs\<close>) work on
  values decoded by \<^verbatim>\<open>JSON.parse\<close>. A JavaScript string is a sequence of UTF-16 code
  units, modelled as a list of naturals; \<open>asc\<close> embeds an ASCII literal. Numbers in
  frames are modelled as integers: the identifiers, return codes and epoch seconds of
  the bus are integers. \<open>JNum n\<close> is the number \<^verbatim>\<open>JSON.parse\<close> makes of the integer
  literal \<open>n\<close>, which is the double nearest to \<open>n\<close>. \<open>JUndef\<close> is \<^verbatim>\<open>undefined\<close>,
  which property access produces and \<^verbatim>\<open>JSON.parse\<close> never does. An object keeps its
  members in the order of the text; for a repeated key the last member is the one
  \<^verbatim>\<open>JSON.parse\<close> keeps.
\<close>

type_synonym ustring = "nat list"

definition asc :: "string \<Rightarrow> ustring" where
  "asc s = map of_char s"

datatype jsval =
    JUndef
  | JNull
  | JBool bool
  | JNum int
  | JStr ustring
  | JArr "jsval list"
  | JObj "(ustring \<times> jsval) list"

datatype js_error = TypeError | RangeError

text \<open>Truthiness, as \<^verbatim>\<open>!x\<close>, \<^verbatim>\<open>a || b\<close> and \<^verbatim>\<open>c ? a : b\<close> test it.\<close>

fun truthy :: "jsval \<Rightarrow> bool" where
  "truthy JUndef = False"
| "truthy JNull = False"
| "truthy (JBool b) = b"
| "truthy (JNum n) = (n \<noteq> 0)"
| "truthy (JStr s) = (s \<noteq> [])"
| "truthy (JArr xs) = True"
| "truthy (JObj kvs) = True"

definition js_or :: "jsval \<Rightarrow> jsval \<Rightarrow> jsval" where
  "js_or a b = (if truthy a then a else b)"

fun nullish :: "jsval \<Rightarrow> bool" where
  "nullish JUndef = True"
| "nullish JNull = True"
| "nullish v = False"

text \<open>
  Reading a property of a value that is neither \<^verbatim>\<open>null\<close> nor \<^verbatim>\<open>undefined\<close>.
  The property names the scripts read (\<^verbatim>\<open>message\<close>, \<^verbatim>\<open>type\<close>, \<^verbatim>\<open>data\<close>,
  \<^verbatim>\<open>text\<close>, \<^verbatim>\<open>sender\<close>, \<^verbatim>\<open>echo\<close>, ...) are not properties of arrays, strings,
  numbers or booleans, nor of \<^verbatim>\<open>Object.prototype\<close>, so only an object's own
  members are found.
\<close>

fun member :: "jsval \<Rightarrow> ustring \<Rightarrow> jsval" where
  "member (JObj kvs) k = (case map_of (rev kvs) k of None \<Rightarrow> JUndef | Some v \<Rightarrow> v)"
| "member v k = JUndef"

text \<open>\<^verbatim>\<open>v.k\<close> throws a TypeError on \<^verbatim>\<open>null\<close> and \<^verbatim>\<open>undefined\<close>; \<^verbatim>\<open>v?.k\<close> yields
  \<^verbatim>\<open>undefined\<close> there.\<close>

definition get_prop :: "jsval \<Rightarrow> ustring \<Rightarrow> js_error + jsval" where
  "get_prop v k = (if nullish v then Inl TypeError else Inr (member v k))"

definition opt_prop :: "jsval \<Rightarrow> ustring \<Rightarrow> jsval" where
  "opt_prop v k = (if nullish v then JUndef else member v k)"

subsection \<open>Numbers\<close>

text \<open>
  A JavaScript number that arithmetic on integers produces: \<^verbatim>\<open>NaN\<close>, an integer that
  a double holds, or an infinity.
\<close>

datatype jsnum = NaN | Finite int | PosInf | NegInf

function bit_length :: "nat \<Rightarrow> nat" where
  "bit_length n = (if n = 0 then 0 else Suc (bit_length (n div 2)))"
  by pat_completeness auto
termination
  by (relation "measure id") auto

declare bit_length.simps [simp del]

text \<open>
  The double nearest to a natural number, ties to the even significand; \<open>None\<close> when
  the number rounds beyond the largest double. Up to \<open>2 ^ 53\<close> every integer is a
  double; above, a double keeps the 53 leading bits.
\<close>

definition round_nat :: "nat \<Rightarrow> nat option" where
  "round_nat n =
     (if n < 2 ^ 53 then Some n
      else
        (let e = bit_length n - 53;
             q = n div 2 ^ e;
             r = n mod 2 ^ e;
             q' = (if 2 ^ e < 2 * r \<or> (2 * r = 2 ^ e \<and> odd q) then q + 1 else q)
         in if q' * 2 ^ e < 2 ^ 1024 then Some (q' * 2 ^ e) else None))"

definition to_double :: "int \<Rightarrow> jsnum" where
  "to_double n =
     (if n < 0
      then (case round_nat (nat (- n)) of None \<Rightarrow> NegInf | Some m \<Rightarrow> Finite (- int m))
      else (case round_nat (nat n) of None \<Rightarrow> PosInf | Some m \<Rightarrow> Finite (int m)))"

text \<open>\<^verbatim>\<open>a === b\<close> on numbers: \<^verbatim>\<open>NaN\<close> equals nothing. \<^verbatim>\<open>a || d\<close> on numbers: the
  default replaces \<^verbatim>\<open>NaN\<close> and \<open>0\<close>. \<^verbatim>\<open>a * k\<close> for a positive integer constant \<open>k\<close>.\<close>

definition num_eq :: "jsnum \<Rightarrow> jsnum \<Rightarrow> bool" where
  "num_eq a b = (a \<noteq> NaN \<and> a = b)"

definition num_or :: "jsnum \<Rightarrow> jsnum \<Rightarrow> jsnum" where
  "num_or a d = (if a = NaN \<or> a = Finite 0 then d else a)"

definition num_times :: "jsnum \<Rightarrow> int \<Rightarrow> jsnum" where
  "num_times a k = (case a of Finite n \<Rightarrow> to_double (n * k) | b \<Rightarrow> b)"

subsection \<open>The runtime\<close>

text \<open>
  Two conversions are the runtime's and are taken as parameters: \<open>strTime s\<close> is the
  time value of \<^verbatim>\<open>new Date(s * 1000)\<close> for a string \<open>s\<close> (\<open>None\<close> for an invalid date),
  and \<open>bigNumber n\<close> is the exponent notation in which an integer of magnitude
  \<open>10 ^ 21\<close> or more is printed.
\<close>

record runtime =
  strTime :: "ustring \<Rightarrow> int option"
  bigNumber :: "int \<Rightarrow> ustring"

subsection \<open>Conversion to strings\<close>

function digits10 :: "nat \<Rightarrow> ustring" where
  "digits10 n = (if n < 10 then [48 + n] else digits10 (n div 10) @ [48 + n mod 10])"
  by pat_completeness auto
termination
  by (relation "measure id") auto

declare digits10.simps [simp del]

text \<open>
  \<^verbatim>\<open>String(n)\<close> for the number of an integer literal: the decimal digits of the
  double below \<open>10 ^ 21\<close> in magnitude, the runtime's exponent notation from there on.
\<close>

definition num_to_string :: "runtime \<Rightarrow> int \<Rightarrow> ustring" where
  "num_to_string rt n =
     (case to_double n of
        NaN \<Rightarrow> asc ''NaN''
      | PosInf \<Rightarrow> asc ''Infinity''
      | NegInf \<Rightarrow> asc ''-Infinity''
      | Finite m \<Rightarrow>
          if \<bar>m\<bar> < 10 ^ 21
          then (if m < 0 then 45 # digits10 (nat (- m)) else digits10 (nat m))
          else bigNumber rt m)"

text \<open>
  \<^verbatim>\<open>String(v)\<close>, which template literals, \<^verbatim>\<open>join\<close> and \<^verbatim>\<open>parseInt\<close> apply, throws a
  TypeError on an object that has an own member \<^verbatim>\<open>toString\<close>: a decoded value is
  never a function, so that member hides \<^verbatim>\<open>Object.prototype.toString\<close> and
  \<^verbatim>\<open>valueOf\<close> gives back the object. An array prints its elements separated by
  commas, \<^verbatim>\<open>null\<close> and \<^verbatim>\<open>undefined\<close> elements as the empty string, and throws when
  an element does. \<open>stringable\<close> says that \<^verbatim>\<open>String(v)\<close> does not throw, \<open>js_string\<close>
  is what it returns then.
\<close>

fun stringable :: "jsval \<Rightarrow> bool"
  and stringable_all :: "jsval list \<Rightarrow> bool" where
  "stringable (JArr xs) = stringable_all xs"
| "stringable (JObj kvs) = (map_of kvs (asc ''toString'') = None)"
| "stringable JUndef = True"
| "stringable JNull = True"
| "stringable (JBool b) = True"
| "stringable (JNum n) = True"
| "stringable (JStr s) = True"
| "stringable_all [] = True"
| "stringable_all (x # xs) = (stringable x \<and> stringable_all xs)"

fun js_string :: "runtime \<Rightarrow> jsval \<Rightarrow> ustring"
  and join_comma :: "runtime \<Rightarrow> jsval list \<Rightarrow> ustring" where
  "js_string rt JUndef = asc ''undefined''"
| "js_string rt JNull = asc ''null''"
| "js_string rt (JBool b) = (if b then asc ''true'' else asc ''false'')"
| "js_string rt (JNum n) = num_to_string rt n"
| "js_string rt (JStr s) = s"
| "js_string rt (JArr xs) = join_comma rt xs"
| "js_string rt (JObj kvs) = asc ''[object Object]''"
| "join_comma rt [] = []"
| "join_comma rt [x] = (if nullish x then [] else js_string rt x)"
| "join_comma rt (x # y # ys) =
     (if nullish x then [] else js_string rt x) @ 44 # join_comma rt (y # ys)"

definition to_string :: "runtime \<Rightarrow> jsval \<Rightarrow> js_error + ustring" where
  "to_string rt v = (if stringable v then Inr (js_string rt v) else Inl TypeError)"

text \<open>\<^verbatim>\<open>xs.join('')\<close>: the elements' strings, one after the other.\<close>

definition join_empty :: "runtime \<Rightarrow> jsval list \<Rightarrow> js_error + ustring" where
  "join_empty rt xs =
     (if stringable_all xs
      then Inr (concat (map (\<lambda>x. if nullish x then [] else js_string rt x) xs))
      else Inl TypeError)"

subsection \<open>Whitespace, \<^verbatim>\<open>trim\<close> and \<^verbatim>\<open>parseInt\<close>\<close>

text \<open>
  The code units ECMAScript counts as white space or line terminators: TAB, LF, VT, FF,
  CR, SPACE, NBSP, U+1680, U+2000 to U+200A, U+2028, U+2029, U+202F, U+205F, U+3000
  and U+FEFF.
\<close>

definition is_ws :: "nat \<Rightarrow> bool" where
  "is_ws c = (c \<in> {9, 10, 11, 12, 13, 32, 160, 5760, 8232, 8233, 8239, 8287, 12288, 65279}
              \<or> (8192 \<le> c \<and> c \<le> 8202))"

definition trim :: "ustring \<Rightarrow> ustring" where
  "trim s = rev (dropWhile is_ws (rev (dropWhile is_ws s)))"

definition is_digit :: "nat \<Rightarrow> bool" where
  "is_digit c = (48 \<le> c \<and> c \<le> 57)"

definition digits_value :: "ustring \<Rightarrow> nat" where
  "digits_value ds = foldl (\<lambda>a c. 10 * a + (c - 48)) 0 ds"

text \<open>
  \<^verbatim>\<open>parseInt(s, 10)\<close> on a string: leading white space is skipped, one sign is read,
  then the longest run of decimal digits; no digit gives \<^verbatim>\<open>NaN\<close>. The result is a
  number: the double nearest to the integer the digits denote.
\<close>

definition parse_int :: "ustring \<Rightarrow> jsnum" where
  "parse_int s =
     (let t = dropWhile is_ws s;
          neg = (t \<noteq> [] \<and> hd t = 45);
          u = (if t \<noteq> [] \<and> (hd t = 45 \<or> hd t = 43) then tl t else t);
          ds = takeWhile is_digit u
      in if ds = [] then NaN
         else to_double (if neg then - int (digits_value ds) else int (digits_value ds)))"

definition parseInt :: "runtime \<Rightarrow> jsval \<Rightarrow> js_error + jsnum" where
  "parseInt rt v = (case to_string rt v of Inl e \<Rightarrow> Inl e | Inr s \<Rightarrow> Inr (parse_int s))"

subsection \<open>Dates\<close>

text \<open>
  \<^verbatim>\<open>new Date(v * 1000).toISOString()\<close>: the time value in milliseconds whose ISO
  text is rendered. A date is valid up to \<open>8.64 * 10 ^ 15\<close> milliseconds on either side
  of the epoch; on an invalid date \<^verbatim>\<open>toISOString\<close> throws a RangeError. The product
  converts \<open>v\<close> to a number first: an object is \<^verbatim>\<open>NaN\<close>, unless it has an own member
  \<^verbatim>\<open>toString\<close>, on which the conversion throws a TypeError; an array is converted
  through its string. The numeric value of a string is the runtime's.
\<close>

definition time_clip :: "int \<Rightarrow> js_error + int" where
  "time_clip ms = (if \<bar>ms\<bar> \<le> 8640000000000000 then Inr ms else Inl RangeError)"

definition string_time :: "runtime \<Rightarrow> ustring \<Rightarrow> js_error + int" where
  "string_time rt s = (case strTime rt s of None \<Rightarrow> Inl RangeError | Some ms \<Rightarrow> Inr ms)"

fun toISOString :: "runtime \<Rightarrow> jsval \<Rightarrow> js_error + int" where
  "toISOString rt JUndef = Inl RangeError"
| "toISOString rt JNull = Inr 0"
| "toISOString rt (JBool b) = Inr (if b then 1000 else 0)"
| "toISOString rt (JNum n) = time_clip (n * 1000)"
| "toISOString rt (JStr s) = string_time rt s"
| "toISOString rt (JArr xs) =
     (if stringable (JArr xs) then string_time rt (js_string rt (JArr xs)) else Inl TypeError)"
| "toISOString rt (JObj kvs) =
     (if stringable (JObj kvs) then Inl RangeError else Inl TypeError)"

section \<open>Text extraction and the record formatter\<close>

text \<open>
  \<^verbatim>\<open>extractText(message)\<close>, the same in both scripts. The filter callback reads
  \<^verbatim>\<open>seg.type\<close> of every segment, so a \<^verbatim>\<open>null\<close> segment throws; the map callback is
  \<^verbatim>\<open>seg.data?.text || ''\<close>; \<^verbatim>\<open>join\<close> throws when it cannot convert a text.
\<close>

fun filter_text :: "jsval list \<Rightarrow> js_error + jsval list" where
  "filter_text [] = Inr []"
| "filter_text (seg # segs) =
     (case get_prop seg (asc ''type'') of
        Inl e \<Rightarrow> Inl e
      | Inr t \<Rightarrow>
          (case filter_text segs of
             Inl e \<Rightarrow> Inl e
           | Inr r \<Rightarrow> Inr (if t = JStr (asc ''text'') then seg # r else r)))"

definition seg_text :: "jsval \<Rightarrow> jsval" where
  "seg_text seg = js_or (opt_prop (member seg (asc ''data'')) (asc ''text'')) (JStr [])"

fun extractText :: "runtime \<Rightarrow> jsval \<Rightarrow> js_error + ustring" where
  "extractText rt (JArr segs) =
     (case filter_text segs of
        Inl e \<Rightarrow> Inl e
      | Inr r \<Rightarrow>
          (case join_empty rt (map seg_text r) of
             Inl e \<Rightarrow> Inl e
           | Inr s \<Rightarrow> Inr (trim s)))"
| "extractText rt v = Inr []"

text \<open>
  The record \<^verbatim>\<open>formatMessage\<close> builds. \<open>time\<close> is \<open>None\<close> for \<^verbatim>\<open>null\<close> and
  otherwise the instant whose ISO text the source stores.
\<close>

record formatted =
  sender :: jsval
  user_id :: jsval
  time :: "int option"
  timestamp :: jsval
  content :: ustring

text \<open>
  The \<^verbatim>\<open>sender\<close> field: the nickname, else the card, else the placeholder that a
  template literal builds from \<^verbatim>\<open>msg.sender?.user_id\<close> or, when that is falsy, a
  fixed two-character word; the template converts the user id to a string and throws
  when that conversion does.
\<close>

definition sender_name :: "runtime \<Rightarrow> jsval \<Rightarrow> js_error + jsval" where
  "sender_name rt s =
     (if truthy (opt_prop s (asc ''nickname'')) then Inr (opt_prop s (asc ''nickname''))
      else if truthy (opt_prop s (asc ''card'')) then Inr (opt_prop s (asc ''card''))
      else (case to_string rt (js_or (opt_prop s (asc ''user_id'')) (JStr [26410, 30693])) of
              Inl e \<Rightarrow> Inl e
            | Inr u \<Rightarrow> Inr (JStr ([29992, 25143] @ u))))"

text \<open>
  \<^verbatim>\<open>formatMessage(msg)\<close>: \<open>Inr None\<close> is the \<^verbatim>\<open>null\<close> it returns for empty text. The
  fields of the record are evaluated in the order of the source, so the sender's
  exception comes before the date's.
\<close>

definition formatMessage :: "runtime \<Rightarrow> jsval \<Rightarrow> js_error + formatted option" where
  "formatMessage rt msg =
     (case get_prop msg (asc ''message'') of
        Inl e \<Rightarrow> Inl e
      | Inr m \<Rightarrow>
          (case extractText rt m of
             Inl e \<Rightarrow> Inl e
           | Inr text \<Rightarrow>
               if text = [] then Inr None
               else
                 (case sender_name rt (member msg (asc ''sender'')) of
                    Inl e \<Rightarrow> Inl e
                  | Inr name \<Rightarrow>
                      (case (if truthy (member msg (asc ''time''))
                             then map_sum id Some (toISOString rt (member msg (asc ''time'')))
                             else Inr None) of
                         Inl e \<Rightarrow> Inl e
                       | Inr t \<Rightarrow>
                           Inr (Some \<lparr> sender = name,
                                       user_id = js_or (opt_prop (member msg (asc ''sender'')) (asc ''user_id'')) JNull,
                                       time = t,
                                       timestamp = js_or (member msg (asc ''time'')) JNull,
                                       content = text \<rparr>)))))"

section \<open>Command lines, events and outcomes\<close>

text \<open>
  \<^verbatim>\<open>process.env\<close>: a variable is unset (\<open>None\<close>) or holds a string. The fields of
  \<^verbatim>\<open>args\<close> hold a string or \<^verbatim>\<open>undefined\<close> (\<open>None\<close>). \<^verbatim>\<open>x || d\<close> takes the default
  for an unset and for an empty variable; \<^verbatim>\<open>!x\<close> holds of \<^verbatim>\<open>undefined\<close> and of the
  empty string.
\<close>

record env =
  NAPCAT_WS :: "ustring option"
  NAPCAT_GROUP :: "ustring option"
  NAPCAT_TOKEN :: "ustring option"

definition present :: "ustring option \<Rightarrow> bool" where
  "present v = (case v of None \<Rightarrow> False | Some s \<Rightarrow> s \<noteq> [])"

definition env_or :: "ustring option \<Rightarrow> ustring \<Rightarrow> ustring option" where
  "env_or v d = (if present v then v else Some d)"

text \<open>\<^verbatim>\<open>argv[++i]\<close>: the next argument, \<^verbatim>\<open>undefined\<close> past the end.\<close>

definition next_arg :: "ustring list \<Rightarrow> ustring option" where
  "next_arg xs = (case xs of [] \<Rightarrow> None | y # ys \<Rightarrow> Some y)"

text \<open>\<^verbatim>\<open>parseInt(x, 10)\<close> of such a value: \<^verbatim>\<open>undefined\<close> is read as its name.\<close>

definition parseInt_arg :: "ustring option \<Rightarrow> jsnum" where
  "parseInt_arg v = parse_int (case v of None \<Rightarrow> asc ''undefined'' | Some s \<Rightarrow> s)"

text \<open>
  The ways a run ends. The error messages of the source are represented by the
  constructor that names the template and holds the values it interpolates:
  \<open>MissingGroup\<close> is the message for a missing \<^verbatim>\<open>--group\<close>, \<open>ConnectTimeout\<close> the one
  of the 10 second connect timer, \<open>ConnectFailed\<close> the one of the socket's error
  event, \<open>RequestTimeout\<close> the one of the 15 second request timer, \<open>ApiError\<close> the one
  for a non-zero \<^verbatim>\<open>retcode\<close>, and \<open>Uncaught\<close> an exception of the runtime caught by
  \<^verbatim>\<open>main\<close>. \<open>ErrorExit\<close> prints the error object and exits with status 1, \<open>HelpExit\<close>
  is \<^verbatim>\<open>--help\<close>. No handler is installed for process signals in either script, so a
  signal ends the process with nothing printed: \<open>Killed\<close>.
\<close>

datatype failure =
    MissingGroup
  | ConnectTimeout "ustring option"
  | ConnectFailed ustring
  | RequestTimeout ustring
  | ApiError ustring jsval jsval
  | Uncaught js_error

datatype 'r outcome = Report 'r | ErrorExit failure | HelpExit | Killed

text \<open>
  What the event loop delivers to a script: the socket's events, the firing of the
  timer that is armed, and a process signal. A frame is the result of
  \<^verbatim>\<open>JSON.parse(raw.toString())\<close>, \<open>None\<close> when it throws. The machines below take
  every event with the reading of the clock at that moment.
\<close>

type_synonym frame = "jsval option"

datatype ws_event = Open | WsError ustring | Message frame | Close | Timeout | Signal

text \<open>
  The clock does not run backwards. A run of a script is given by its events, each
  with the time that has passed since the one before (since the start, for the
  first); \<open>stamp\<close> turns these delays into the readings of the clock.
\<close>

fun stamp :: "nat \<Rightarrow> (nat \<times> ws_event) list \<Rightarrow> (nat \<times> ws_event) list" where
  "stamp t [] = []"
| "stamp t ((d, ev) # evs) = (t + d, ev) # stamp (t + d) evs"

record args =
  napcat :: "ustring option"
  group :: "ustring option"
  token :: "ustring option"

record report =
  success :: bool
  group_id :: "ustring option"
  messages :: "formatted list"

section \<open>\<^verbatim>\<open>collect.mjs\<close>\<close>

record collect_args = args +
  duration :: jsnum

function parseArgs_loop :: "ustring list \<Rightarrow> collect_args \<Rightarrow> 'r outcome + collect_args" where
  "parseArgs_loop [] a = Inr a"
| "parseArgs_loop (x # xs) a =
     (if x = asc ''--napcat'' then parseArgs_loop (drop 1 xs) (a\<lparr>napcat := next_arg xs\<rparr>)
      else if x = asc ''--group'' then parseArgs_loop (drop 1 xs) (a\<lparr>group := next_arg xs\<rparr>)
      else if x = asc ''--duration''
        then parseArgs_loop (drop 1 xs)
               (a\<lparr>duration := num_or (parseInt_arg (next_arg xs)) (Finite 60)\<rparr>)
      else if x = asc ''--token'' then parseArgs_loop (drop 1 xs) (a\<lparr>token := next_arg xs\<rparr>)
      else if x = asc ''--help'' then Inl HelpExit
      else parseArgs_loop xs a)"
  by pat_completeness auto
termination
  by (relation "measure (\<lambda>(xs, a). length xs)") auto

definition parseArgs :: "env \<Rightarrow> ustring list \<Rightarrow> 'r outcome + collect_args" where
  "parseArgs e argv =
     (case parseArgs_loop (drop 2 argv)
             \<lparr> napcat = env_or (NAPCAT_WS e) (asc ''ws://127.0.0.1:3001''),
               group = env_or (NAPCAT_GROUP e) [],
               token = env_or (NAPCAT_TOKEN e) [],
               duration = Finite 60 \<rparr> of
        Inl x \<Rightarrow> Inl x
      | Inr a \<Rightarrow> if present (group a) then Inr a else Inl (ErrorExit MissingGroup))"

text \<open>
  The report \<^verbatim>\<open>main\<close> prints. \<open>start_time\<close> and \<open>end_time\<close> hold the readings of the
  clock (\<^verbatim>\<open>new Date()\<close>, in milliseconds) whose ISO text the source prints.
\<close>

record collect_report = report +
  collected_count :: nat
  duration_minutes :: jsnum
  start_time :: nat
  end_time :: nat

definition targetGroup :: "collect_args \<Rightarrow> jsnum" where
  "targetGroup a = parseInt_arg (group a)"

definition durationMs :: "collect_args \<Rightarrow> jsnum" where
  "durationMs a = num_times (num_times (duration a) 60) 1000"

text \<open>
  The \<^verbatim>\<open>message\<close> listener of \<^verbatim>\<open>main\<close>, on the buffer \<^verbatim>\<open>collectedMessages\<close>. Its
  \<^verbatim>\<open>try\<close> block swallows every exception: of \<^verbatim>\<open>JSON.parse\<close>, of \<^verbatim>\<open>event.post_type\<close>
  on \<^verbatim>\<open>null\<close>, of \<^verbatim>\<open>parseInt\<close> on a group id that cannot be converted to a string,
  and of \<^verbatim>\<open>formatMessage\<close>. The progress line on the error stream is written after
  the record has been pushed and is not modelled.
\<close>

definition accepts :: "runtime \<Rightarrow> jsnum \<Rightarrow> jsval \<Rightarrow> bool" where
  "accepts rt target event =
     (member event (asc ''post_type'') = JStr (asc ''message'')
      \<and> member event (asc ''message_type'') = JStr (asc ''group'')
      \<and> (case parseInt rt (member event (asc ''group_id'')) of
           Inl e \<Rightarrow> False
         | Inr g \<Rightarrow> num_eq g target))"

definition on_message ::
  "runtime \<Rightarrow> jsnum \<Rightarrow> formatted list \<Rightarrow> frame \<Rightarrow> formatted list" where
  "on_message rt target buf raw =
     (case raw of
        None \<Rightarrow> buf
      | Some event \<Rightarrow>
          if nullish event then buf
          else if accepts rt target event
          then (case formatMessage rt event of
                  Inl e \<Rightarrow> buf
                | Inr None \<Rightarrow> buf
                | Inr (Some formatted) \<Rightarrow> buf @ [formatted])
          else buf)"

text \<open>
  \<^verbatim>\<open>main\<close> as a machine over the events. While \<open>Connecting\<close> the 10 second connect
  timer is armed and only the \<^verbatim>\<open>open\<close> and \<^verbatim>\<open>error\<close> listeners exist. On \<^verbatim>\<open>open\<close>
  that timer is cleared, the \<^verbatim>\<open>message\<close> and \<^verbatim>\<open>close\<close> listeners are added and the
  timer of \<open>durationMs\<close> milliseconds is armed: \<open>Collecting\<close>. The \<^verbatim>\<open>close\<close> listener
  only writes a progress line. When the duration timer fires the report is printed.
\<close>

datatype cstate = Connecting | Collecting "formatted list" | Finished "collect_report outcome"

text \<open>The delay that was given to the timer armed in a state.\<close>

definition armed_timer :: "collect_args \<Rightarrow> cstate \<Rightarrow> jsnum option" where
  "armed_timer a s =
     (case s of
        Connecting \<Rightarrow> Some (Finite 10000)
      | Collecting buf \<Rightarrow> Some (durationMs a)
      | Finished r \<Rightarrow> None)"

definition make_report :: "collect_args \<Rightarrow> nat \<Rightarrow> nat \<Rightarrow> formatted list \<Rightarrow> collect_report" where
  "make_report a startTime endTime collectedMessages =
     \<lparr> success = True,
       group_id = group a,
       messages = collectedMessages,
       collected_count = length collectedMessages,
       duration_minutes = duration a,
       start_time = startTime,
       end_time = endTime \<rparr>"

fun collect_step ::
  "runtime \<Rightarrow> collect_args \<Rightarrow> nat \<Rightarrow> cstate \<Rightarrow> nat \<times> ws_event \<Rightarrow> cstate" where
  "collect_step rt a startTime Connecting (now, Open) = Collecting []"
| "collect_step rt a startTime Connecting (now, WsError m) = Finished (ErrorExit (ConnectFailed m))"
| "collect_step rt a startTime Connecting (now, Timeout) = Finished (ErrorExit (ConnectTimeout (napcat a)))"
| "collect_step rt a startTime Connecting (now, Signal) = Finished Killed"
| "collect_step rt a startTime Connecting (now, ev) = Connecting"
| "collect_step rt a startTime (Collecting buf) (now, Message raw) =
     Collecting (on_message rt (targetGroup a) buf raw)"
| "collect_step rt a startTime (Collecting buf) (now, Timeout) =
     Finished (Report (make_report a startTime now buf))"
| "collect_step rt a startTime (Collecting buf) (now, Signal) = Finished Killed"
| "collect_step rt a startTime (Collecting buf) (now, ev) = Collecting buf"
| "collect_step rt a startTime (Finished r) (now, ev) = Finished r"

definition collect_run ::
  "runtime \<Rightarrow> collect_args \<Rightarrow> nat \<Rightarrow> cstate \<Rightarrow> (nat \<times> ws_event) list \<Rightarrow> cstate" where
  "collect_run rt a startTime s evs = foldl (collect_step rt a startTime) s evs"

text \<open>
  The session of \<^verbatim>\<open>main\<close> with the arguments \<open>a\<close>: it reads the clock for
  \<^verbatim>\<open>startTime\<close> and then meets the events \<open>evs\<close>, given with their delays.
\<close>

definition collect_session ::
  "runtime \<Rightarrow> collect_args \<Rightarrow> nat \<Rightarrow> (nat \<times> ws_event) list \<Rightarrow> cstate" where
  "collect_session rt a startTime evs = collect_run rt a startTime Connecting (stamp startTime evs)"

definition collect_main ::
  "runtime \<Rightarrow> env \<Rightarrow> ustring list \<Rightarrow> nat \<Rightarrow> (nat \<times> ws_event) list \<Rightarrow> cstate" where
  "collect_main rt e argv startTime evs =
     (case parseArgs e argv of
        Inl x \<Rightarrow> Finished x
      | Inr a \<Rightarrow> collect_session rt a startTime evs)"

section \<open>\<^verbatim>\<open>fetch.mjs\<close>\<close>

record fetch_args = args +
  count :: jsnum

function parseArgs_fetch_loop :: "ustring list \<Rightarrow> fetch_args \<Rightarrow> 'r outcome + fetch_args" where
  "parseArgs_fetch_loop [] a = Inr a"
| "parseArgs_fetch_loop (x # xs) a =
     (if x = asc ''--napcat'' then parseArgs_fetch_loop (drop 1 xs) (a\<lparr>napcat := next_arg xs\<rparr>)
      else if x = asc ''--group'' then parseArgs_fetch_loop (drop 1 xs) (a\<lparr>group := next_arg xs\<rparr>)
      else if x = asc ''--count''
        then parseArgs_fetch_loop (drop 1 xs)
               (a\<lparr>count := num_or (parseInt_arg (next_arg xs)) (Finite 100)\<rparr>)
      else if x = asc ''--token'' then parseArgs_fetch_loop (drop 1 xs) (a\<lparr>token := next_arg xs\<rparr>)
      else if x = asc ''--help'' then Inl HelpExit
      else parseArgs_fetch_loop xs a)"
  by pat_completeness auto
termination
  by (relation "measure (\<lambda>(xs, a). length xs)") auto

definition parseArgs_fetch :: "env \<Rightarrow> ustring list \<Rightarrow> 'r outcome + fetch_args" where
  "parseArgs_fetch e argv =
     (case parseArgs_fetch_loop (drop 2 argv)
             \<lparr> napcat = env_or (NAPCAT_WS e) (asc ''ws://127.0.0.1:3001''),
               group = env_or (NAPCAT_GROUP e) [],
               token = env_or (NAPCAT_TOKEN e) [],
               count = Finite 100 \<rparr> of
        Inl x \<Rightarrow> Inl x
      | Inr a \<Rightarrow> if present (group a) then Inr a else Inl (ErrorExit MissingGroup))"

subsection \<open>\<^verbatim>\<open>sendRequest\<close>\<close>

text \<open>
  One call of \<^verbatim>\<open>sendRequest\<close> owns the variables \<^verbatim>\<open>echo\<close> and \<^verbatim>\<open>action\<close> of its
  closure, a timer of 15000 milliseconds, a \<^verbatim>\<open>message\<close> listener on the socket and the
  promise it returns. \<open>timer\<close> holds the delay of the timer while it is armed and is
  \<open>None\<close> once it has fired or was cleared; \<open>listening\<close> says whether the listener is
  still registered. A promise is settled once: \<^verbatim>\<open>resolve\<close> and \<^verbatim>\<open>reject\<close> on a settled
  promise do nothing.
\<close>

datatype settle = Pending | Resolved jsval | Rejected failure

record call =
  echo :: ustring
  action :: ustring
  timer :: "int option"
  listening :: bool
  promise :: settle

text \<open>
  The socket with the calls made on it, in the order they were made (the order of
  their listeners), the module's counter \<^verbatim>\<open>requestId\<close>, and the frames handed to
  \<^verbatim>\<open>ws.send\<close>.
\<close>

record conn =
  requestId :: nat
  calls :: "call list"
  sent :: "jsval list"

definition conn0 :: conn where
  "conn0 = \<lparr> requestId = 0, calls = [], sent = [] \<rparr>"

text \<open>
  \<^verbatim>\<open>++requestId\<close> on a JavaScript number: exact up to \<open>2 ^ 53\<close>, where adding one
  rounds back to the same value.
\<close>

definition incr :: "nat \<Rightarrow> nat" where
  "incr n = (if n < 2 ^ 53 then n + 1 else n)"

text \<open>The token \<^verbatim>\<open>`req_${++requestId}_${Date.now()}`\<close>.\<close>

definition mint :: "nat \<Rightarrow> nat \<Rightarrow> ustring" where
  "mint n now = asc ''req_'' @ digits10 n @ asc ''_'' @ digits10 now"

definition sendRequest :: "conn \<Rightarrow> nat \<Rightarrow> ustring \<Rightarrow> jsval \<Rightarrow> conn" where
  "sendRequest c now act params =
     (let n = incr (requestId c);
          e = mint n now
      in c\<lparr> requestId := n,
            calls := calls c @ [\<lparr> echo = e, action = act, timer = Some 15000, listening = True,
                                  promise = Pending \<rparr>],
            sent := sent c @ [JObj [(asc ''action'', JStr act), (asc ''params'', params),
                                    (asc ''echo'', JStr e)]] \<rparr>)"

definition settle_with :: "settle \<Rightarrow> settle \<Rightarrow> settle" where
  "settle_with p r = (if p = Pending then r else p)"

text \<open>
  What a response with the call's token settles the promise with. For a non-zero
  \<^verbatim>\<open>retcode\<close> the handler builds the error message by a template over
  \<^verbatim>\<open>data.retcode\<close> and \<^verbatim>\<open>data.msg || data.message\<close> (or a fixed word); when one of them cannot
  be converted to a string the template throws inside the handler's \<^verbatim>\<open>try\<close> block
  before \<^verbatim>\<open>reject\<close> is called, and the promise stays pending.
\<close>

definition response_result :: "ustring \<Rightarrow> jsval \<Rightarrow> settle" where
  "response_result act data =
     (if member data (asc ''retcode'') = JNum 0 then Resolved (member data (asc ''data''))
      else if stringable (member data (asc ''retcode''))
            \<and> stringable (js_or (member data (asc ''msg''))
                            (js_or (member data (asc ''message'')) (JStr [26410, 30693])))
      then Rejected (ApiError act (member data (asc ''retcode''))
                      (js_or (member data (asc ''msg''))
                         (js_or (member data (asc ''message'')) (JStr [26410, 30693]))))
      else Pending)"

text \<open>
  The listener \<^verbatim>\<open>handler\<close> of one call. Its \<^verbatim>\<open>try\<close> block swallows the exceptions
  of \<^verbatim>\<open>JSON.parse\<close> and of \<^verbatim>\<open>data.echo\<close> on \<^verbatim>\<open>null\<close>. On its own token it clears the
  timer, removes itself and settles the promise.
\<close>

definition handler :: "call \<Rightarrow> frame \<Rightarrow> call" where
  "handler k raw =
     (case raw of
        None \<Rightarrow> k
      | Some data \<Rightarrow>
          if nullish data then k
          else if member data (asc ''echo'') = JStr (echo k)
          then k\<lparr> timer := None, listening := False,
                   promise := settle_with (promise k) (response_result (action k) data) \<rparr>
          else k)"

text \<open>The socket emits \<^verbatim>\<open>message\<close>: every registered listener is called.\<close>

definition emit_message :: "conn \<Rightarrow> frame \<Rightarrow> conn" where
  "emit_message c raw = c\<lparr> calls := map (\<lambda>k. if listening k then handler k raw else k) (calls c) \<rparr>"

text \<open>
  The timer of call \<open>i\<close> fires, if it is still armed: the callback only rejects the
  promise.
\<close>

definition expire :: "conn \<Rightarrow> nat \<Rightarrow> conn" where
  "expire c i =
     (if i < length (calls c) \<and> timer (calls c ! i) \<noteq> None
      then c\<lparr> calls := (calls c)[i := (calls c ! i)\<lparr> timer := None,
                 promise := settle_with (promise (calls c ! i))
                              (Rejected (RequestTimeout (action (calls c ! i)))) \<rparr>] \<rparr>
      else c)"

text \<open>
  The events of a connection after it has opened. Nothing in \<^verbatim>\<open>fetch.mjs\<close> listens
  for \<^verbatim>\<open>close\<close>, so a closure changes nothing.
\<close>

datatype conn_event = Frame frame | Expire nat | Closed

fun conn_step :: "conn \<Rightarrow> conn_event \<Rightarrow> conn" where
  "conn_step c (Frame raw) = emit_message c raw"
| "conn_step c (Expire i) = expire c i"
| "conn_step c Closed = c"

text \<open>A run of calls of \<^verbatim>\<open>sendRequest\<close> and events on one connection.\<close>

datatype conn_action = Send nat ustring jsval | Event conn_event

fun conn_do :: "conn \<Rightarrow> conn_action \<Rightarrow> conn" where
  "conn_do c (Send now act params) = sendRequest c now act params"
| "conn_do c (Event ev) = conn_step c ev"

definition conn_run :: "conn \<Rightarrow> conn_action list \<Rightarrow> conn" where
  "conn_run c acts = foldl conn_do c acts"

subsection \<open>\<^verbatim>\<open>main\<close>\<close>

text \<open>The report of \<^verbatim>\<open>fetch.mjs\<close>; \<open>fetch_time\<close> is the reading of the clock it prints.\<close>

record fetch_report = report +
  fetched_count :: nat
  requested_count :: jsnum
  fetch_time :: nat

text \<open>\<^verbatim>\<open>xs.map(formatMessage)\<close>: the first exception ends the mapping.\<close>

fun format_all :: "runtime \<Rightarrow> jsval list \<Rightarrow> js_error + formatted option list" where
  "format_all rt [] = Inr []"
| "format_all rt (x # xs) =
     (case formatMessage rt x of
        Inl e \<Rightarrow> Inl e
      | Inr r \<Rightarrow> (case format_all rt xs of Inl e \<Rightarrow> Inl e | Inr rs \<Rightarrow> Inr (r # rs)))"

definition rawMessages :: "jsval \<Rightarrow> jsval" where
  "rawMessages historyData =
     js_or (opt_prop historyData (asc ''messages'')) (js_or historyData (JArr []))"

definition array_or_empty :: "jsval \<Rightarrow> jsval list" where
  "array_or_empty v = (case v of JArr xs \<Rightarrow> xs | _ \<Rightarrow> [])"

text \<open>The statements of \<^verbatim>\<open>main\<close> after the request has resolved with \<open>historyData\<close>.\<close>

definition fetch_result ::
  "runtime \<Rightarrow> fetch_args \<Rightarrow> nat \<Rightarrow> jsval \<Rightarrow> js_error + fetch_report" where
  "fetch_result rt a now historyData =
     (case format_all rt (array_or_empty (rawMessages historyData)) of
        Inl e \<Rightarrow> Inl e
      | Inr rs \<Rightarrow>
          Inr \<lparr> success = True,
                group_id = group a,
                messages = map the (filter (\<lambda>r. r \<noteq> None) rs),
                fetched_count = length (filter (\<lambda>r. r \<noteq> None) rs),
                requested_count = count a,
                fetch_time = now \<rparr>)"

text \<open>
  The parameters of the one request, as \<^verbatim>\<open>JSON.stringify\<close> sends them: \<^verbatim>\<open>NaN\<close> and
  the infinities are sent as \<^verbatim>\<open>null\<close>.
\<close>

definition json_num :: "jsnum \<Rightarrow> jsval" where
  "json_num x = (case x of Finite n \<Rightarrow> JNum n | y \<Rightarrow> JNull)"

definition history_params :: "fetch_args \<Rightarrow> jsval" where
  "history_params a =
     JObj [(asc ''group_id'', json_num (parseInt_arg (group a))),
           (asc ''count'', json_num (count a))]"

datatype fstate = FConnecting | Requesting conn | FFinished "fetch_report outcome"

text \<open>
  After an event the awaited promise, the one of the first call, decides how
  \<^verbatim>\<open>main\<close> goes on.
\<close>

definition await_request :: "runtime \<Rightarrow> fetch_args \<Rightarrow> nat \<Rightarrow> conn \<Rightarrow> fstate" where
  "await_request rt a now c =
     (case calls c of
        [] \<Rightarrow> Requesting c
      | k # ks \<Rightarrow>
          (case promise k of
             Pending \<Rightarrow> Requesting c
           | Resolved historyData \<Rightarrow>
               FFinished (case fetch_result rt a now historyData of
                            Inl e \<Rightarrow> ErrorExit (Uncaught e)
                          | Inr r \<Rightarrow> Report r)
           | Rejected f \<Rightarrow> FFinished (ErrorExit f)))"

fun fetch_step ::
  "runtime \<Rightarrow> fetch_args \<Rightarrow> fstate \<Rightarrow> nat \<times> ws_event \<Rightarrow> fstate" where
  "fetch_step rt a FConnecting (now, Open) =
     Requesting (sendRequest conn0 now (asc ''get_group_msg_history'') (history_params a))"
| "fetch_step rt a FConnecting (now, WsError m) = FFinished (ErrorExit (ConnectFailed m))"
| "fetch_step rt a FConnecting (now, Timeout) = FFinished (ErrorExit (ConnectTimeout (napcat a)))"
| "fetch_step rt a FConnecting (now, Signal) = FFinished Killed"
| "fetch_step rt a FConnecting (now, ev) = FConnecting"
| "fetch_step rt a (Requesting c) (now, Message raw) =
     await_request rt a now (conn_step c (Frame raw))"
| "fetch_step rt a (Requesting c) (now, Timeout) =
     await_request rt a now (conn_step c (Expire 0))"
| "fetch_step rt a (Requesting c) (now, Close) = Requesting (conn_step c Closed)"
| "fetch_step rt a (Requesting c) (now, Signal) = FFinished Killed"
| "fetch_step rt a (Requesting c) (now, ev) = Requesting c"
| "fetch_step rt a (FFinished r) (now, ev) = FFinished r"

text \<open>
  \<^verbatim>\<open>main\<close> started when the clock reads \<open>started\<close>, meeting the events \<open>evs\<close>, given
  with their delays.
\<close>

definition fetch_main ::
  "runtime \<Rightarrow> env \<Rightarrow> ustring list \<Rightarrow> nat \<Rightarrow> (nat \<times> ws_event) list \<Rightarrow> fstate" where
  "fetch_main rt e argv started evs =
     (case parseArgs_fetch e argv of
        Inl x \<Rightarrow> FFinished x
      | Inr a \<Rightarrow> foldl (fetch_step rt a) FConnecting (stamp started evs))"

section \<open>Notions used in the statements\<close>

text \<open>
  A runtime for concrete runs in which no time is a string and no number reaches
  \<open>10 ^ 21\<close>.
\<close>

definition plain_runtime :: runtime where
  "plain_runtime = \<lparr> strTime = (\<lambda>s. None), bigNumber = (\<lambda>n. []) \<rparr>"

text \<open>A text segment with the given text, and an image segment.\<close>

definition text_seg :: "ustring \<Rightarrow> jsval" where
  "text_seg s = JObj [(asc ''type'', JStr (asc ''text'')), (asc ''data'', JObj [(asc ''text'', JStr s)])]"

definition image_seg :: jsval where
  "image_seg = JObj [(asc ''type'', JStr (asc ''image'')), (asc ''data'', JObj [])]"

text \<open>The segments of the text kind.\<close>

definition is_text_seg :: "jsval \<Rightarrow> bool" where
  "is_text_seg seg = (member seg (asc ''type'') = JStr (asc ''text''))"

text \<open>The steps of a run that are calls of \<^verbatim>\<open>sendRequest\<close>.\<close>

fun is_send :: "conn_action \<Rightarrow> bool" where
  "is_send (Send now act params) = True"
| "is_send (Event ev) = False"

text \<open>The token a frame carries and the object it decodes to.\<close>

definition frame_echo :: "frame \<Rightarrow> jsval" where
  "frame_echo raw = (case raw of None \<Rightarrow> JUndef | Some data \<Rightarrow> member data (asc ''echo''))"

definition frame_data :: "frame \<Rightarrow> jsval" where
  "frame_data raw = (case raw of None \<Rightarrow> JUndef | Some data \<Rightarrow> data)"

text \<open>A response frame as the bus sends it.\<close>

definition response :: "ustring \<Rightarrow> int \<Rightarrow> jsval \<Rightarrow> frame" where
  "response e code payload =
     Some (JObj [(asc ''echo'', JStr e), (asc ''retcode'', JNum code), (asc ''data'', payload)])"

text \<open>Two calls made at clock reading 7 on a fresh connection: tokens \<^verbatim>\<open>req_1_7\<close> and \<^verbatim>\<open>req_2_7\<close>.\<close>

definition two_calls :: conn where
  "two_calls = conn_run conn0 [Send 7 (asc ''a'') JNull, Send 7 (asc ''b'') JNull]"

text \<open>One call for the message history made at clock reading 7: token \<^verbatim>\<open>req_1_7\<close>.\<close>

definition one_call :: conn where
  "one_call = sendRequest conn0 7 (asc ''get_group_msg_history'') JNull"

text \<open>An empty environment and command lines that name group 123.\<close>

definition env0 :: env where
  "env0 = \<lparr> NAPCAT_WS = None, NAPCAT_GROUP = None, NAPCAT_TOKEN = None \<rparr>"

definition fetch_argv :: "ustring list" where
  "fetch_argv = [asc ''node'', asc ''fetch.mjs'', asc ''--group'', asc ''123'']"

definition collect_argv :: "ustring list" where
  "collect_argv = [asc ''node'', asc ''collect.mjs'', asc ''--group'', asc ''123'']"

text \<open>The arguments \<^verbatim>\<open>parseArgs\<close> returns for them.\<close>

definition fetch_args0 :: fetch_args where
  "fetch_args0 = \<lparr> napcat = Some (asc ''ws://127.0.0.1:3001''), group = Some (asc ''123''),
                    token = Some [], count = Finite 100 \<rparr>"

definition collect_args0 :: collect_args where
  "collect_args0 = \<lparr> napcat = Some (asc ''ws://127.0.0.1:3001''), group = Some (asc ''123''),
                      token = Some [], duration = Finite 60 \<rparr>"

text \<open>
  A group message of the given group with the text \<^verbatim>\<open>hi\<close>, sent at the given epoch
  second by \<^verbatim>\<open>bob\<close>, and the record the formatter makes of it. The same message from
  a sender without nickname and card whose \<^verbatim>\<open>user_id\<close> is an object with a member
  \<^verbatim>\<open>toString\<close>.
\<close>

definition group_message :: "int \<Rightarrow> int \<Rightarrow> jsval" where
  "group_message gid secs =
     JObj [(asc ''post_type'', JStr (asc ''message'')),
           (asc ''message_type'', JStr (asc ''group'')),
           (asc ''group_id'', JNum gid),
           (asc ''sender'', JObj [(asc ''nickname'', JStr (asc ''bob'')), (asc ''user_id'', JNum 42)]),
           (asc ''time'', JNum secs),
           (asc ''message'', JArr [text_seg (asc ''hi'')])]"

definition hi_record :: "int \<Rightarrow> formatted" where
  "hi_record secs =
     \<lparr> sender = JStr (asc ''bob''), user_id = JNum 42, time = Some (secs * 1000),
       timestamp = JNum secs, content = asc ''hi'' \<rparr>"

definition odd_sender_message :: "int \<Rightarrow> int \<Rightarrow> jsval" where
  "odd_sender_message gid secs =
     JObj [(asc ''post_type'', JStr (asc ''message'')),
           (asc ''message_type'', JStr (asc ''group'')),
           (asc ''group_id'', JNum gid),
           (asc ''sender'', JObj [(asc ''user_id'', JObj [(asc ''toString'', JNum 1)])]),
           (asc ''time'', JNum secs),
           (asc ''message'', JArr [text_seg (asc ''hi'')])]"

text \<open>
  An event yields non-empty extracted text; an observed frame counts for the buffer in
  the sense of the specification when it passes the scope filter and yields non-empty
  text.
\<close>

definition nonempty_text :: "runtime \<Rightarrow> jsval \<Rightarrow> bool" where
  "nonempty_text rt event =
     (case extractText rt (member event (asc ''message'')) of Inl e \<Rightarrow> False | Inr t \<Rightarrow> t \<noteq> [])"

text \<open>The group id of an event, as \<^verbatim>\<open>parseInt\<close> reads it, is the target.\<close>

definition group_matches :: "runtime \<Rightarrow> jsnum \<Rightarrow> jsval \<Rightarrow> bool" where
  "group_matches rt target event =
     (case parseInt rt (member event (asc ''group_id'')) of
        Inl e \<Rightarrow> False
      | Inr g \<Rightarrow> num_eq g target)"

definition counted :: "runtime \<Rightarrow> jsnum \<Rightarrow> frame \<Rightarrow> bool" where
  "counted rt target raw =
     (accepts rt target (frame_data raw) \<and> nonempty_text rt (frame_data raw))"

text \<open>
  The two ways the formatter can still throw on an event with non-empty text. The
  \<^verbatim>\<open>time\<close> renders when it is falsy or converts to a valid date. The sender prints
  when it has a truthy nickname or card, or a user id that \<^verbatim>\<open>String\<close> converts. A
  frame is kept when it counts, its sender prints and its time renders.
\<close>

definition time_renders :: "runtime \<Rightarrow> jsval \<Rightarrow> bool" where
  "time_renders rt event =
     (if truthy (member event (asc ''time''))
      then (case toISOString rt (member event (asc ''time'')) of Inl e \<Rightarrow> False | Inr ms \<Rightarrow> True)
      else True)"

definition sender_prints :: "jsval \<Rightarrow> bool" where
  "sender_prints event =
     (truthy (opt_prop (member event (asc ''sender'')) (asc ''nickname''))
      \<or> truthy (opt_prop (member event (asc ''sender'')) (asc ''card''))
      \<or> stringable (js_or (opt_prop (member event (asc ''sender'')) (asc ''user_id''))
                      (JStr [26410, 30693])))"

definition kept :: "runtime \<Rightarrow> jsnum \<Rightarrow> frame \<Rightarrow> bool" where
  "kept rt target raw =
     (counted rt target raw \<and> sender_prints (frame_data raw) \<and> time_renders rt (frame_data raw))"

text \<open>The frames among a list of events, in order, and the time the events take.\<close>

fun event_frames :: "(nat \<times> ws_event) list \<Rightarrow> frame list" where
  "event_frames [] = []"
| "event_frames ((t, Message raw) # evs) = raw # event_frames evs"
| "event_frames ((t, ev) # evs) = event_frames evs"

definition elapsed :: "(nat \<times> ws_event) list \<Rightarrow> nat" where
  "elapsed evs = sum_list (map fst evs)"

text \<open>Events that end no session: neither a timer nor a signal.\<close>

fun no_end :: "nat \<times> ws_event \<Rightarrow> bool" where
  "no_end (t, Timeout) = False"
| "no_end (t, Signal) = False"
| "no_end (t, ev) = True"

text \<open>What a socket can still emit once it has closed: no message.\<close>

fun after_close :: "nat \<times> ws_event \<Rightarrow> bool" where
  "after_close (t, WsError m) = True"
| "after_close (t, Close) = True"
| "after_close (t, ev) = False"

text \<open>The formatter raises no exception on an item.\<close>

definition formats :: "runtime \<Rightarrow> jsval \<Rightarrow> bool" where
  "formats rt x = (case formatMessage rt x of Inl e \<Rightarrow> False | Inr r \<Rightarrow> True)"

text \<open>An item whose only segment is an image: its extracted text is empty.\<close>

definition image_message :: jsval where
  "image_message = JObj [(asc ''message'', JArr [image_seg])]"

section \<open>Text extraction and the formatter\<close>

lemmas js_eval = asc_def get_prop_def opt_prop_def js_or_def join_empty_def trim_def is_ws_def
  seg_text_def text_seg_def image_seg_def is_text_seg_def to_string_def





lemma formatMessage_null_iff:
  "formatMessage rt msg = Inr None \<longleftrightarrow>
     (\<exists>m. get_prop msg (asc ''message'') = Inr m \<and> extractText rt m = Inr [])"
  by (auto simp: formatMessage_def split: sum.splits if_splits)




section \<open>Correlation tokens\<close>

lemma digits10_range: "c \<in> set (digits10 n) \<Longrightarrow> 48 \<le> c \<and> c \<le> 57"
proof (induction n arbitrary: c rule: digits10.induct)
  case (1 n)
  show ?case
  proof (cases "n < 10")
    case True
    with "1.prems" show ?thesis by (simp add: digits10.simps [of n])
  next
    case False
    with "1.prems" have "c \<in> set (digits10 (n div 10)) \<or> c = 48 + n mod 10"
      by (auto simp: digits10.simps [of n])
    then show ?thesis
    proof
      assume "c \<in> set (digits10 (n div 10))"
      with False "1.IH" show ?thesis by blast
    next
      assume "c = 48 + n mod 10"
      moreover have "n mod 10 < 10" by simp
      ultimately show ?thesis by linarith
    qed
  qed
qed

lemma digits_value_snoc: "digits_value (ds @ [c]) = 10 * digits_value ds + (c - 48)"
  by (simp add: digits_value_def)

lemma digits_value_digits10: "digits_value (digits10 n) = n"
proof (induction n rule: digits10.induct)
  case (1 n)
  show ?case
  proof (cases "n < 10")
    case True
    then show ?thesis by (simp add: digits10.simps [of n] digits_value_def)
  next
    case False
    with "1.IH" have "digits_value (digits10 (n div 10)) = n div 10" by simp
    with False show ?thesis
      by (simp add: digits10.simps [of n] digits_value_snoc)
  qed
qed

lemma digits10_inj: "digits10 n = digits10 m \<Longrightarrow> n = m"
  by (metis digits_value_digits10)

lemma takeWhile_upto: "c \<notin> set xs \<Longrightarrow> takeWhile (\<lambda>x. x \<noteq> c) (xs @ c # ys) = xs"
  by (induction xs) auto

lemma split_at_first:
  assumes "xs @ c # ys = xs' @ c # ys'" and "c \<notin> set xs" and "c \<notin> set xs'"
  shows "xs = xs'"
proof -
  have "takeWhile (\<lambda>x. x \<noteq> c) (xs @ c # ys) = xs"
    using assms(2) by (rule takeWhile_upto)
  moreover have "takeWhile (\<lambda>x. x \<noteq> c) (xs' @ c # ys') = xs'"
    using assms(3) by (rule takeWhile_upto)
  ultimately show ?thesis using assms(1) by simp
qed

lemma underscore_not_digit: "95 \<notin> set (digits10 n)"
  using digits10_range [of 95 n] by auto

lemma mint_counter: "mint n t = mint m u \<Longrightarrow> n = m"
proof -
  assume "mint n t = mint m u"
  then have "digits10 n @ 95 # digits10 t = digits10 m @ 95 # digits10 u"
    by (simp add: mint_def asc_def)
  then have "digits10 n = digits10 m"
    by (rule split_at_first) (rule underscore_not_digit)+
  then show "n = m" by (rule digits10_inj)
qed

lemma echoes_conn_step [simp]: "map echo (calls (conn_step c ev)) = map echo (calls c)"
proof (cases ev)
  case (Frame raw)
  have "\<And>k. echo (if listening k then handler k raw else k) = echo k"
    by (simp add: handler_def split: option.splits)
  then show ?thesis using Frame by (simp add: emit_message_def comp_def)
next
  case (Expire i)
  then show ?thesis by (simp add: expire_def map_update list_update_same_conv)
next
  case Closed
  then show ?thesis by simp
qed

lemma requestId_conn_step [simp]: "requestId (conn_step c ev) = requestId c"
  by (cases ev) (simp_all add: emit_message_def expire_def)

lemma tokens_fresh_inv:
  assumes "\<forall>e \<in> set (map echo (calls c)). \<exists>n t. e = mint n t \<and> n \<le> requestId c"
    and "distinct (map echo (calls c))"
    and "requestId c + length (filter is_send acts) \<le> 2 ^ 53"
  shows "distinct (map echo (calls (conn_run c acts)))"
  using assms unfolding conn_run_def
proof (induction acts arbitrary: c)
  case Nil
  then show ?case by simp
next
  case (Cons a acts)
  show ?case
  proof (cases a)
    case (Send now act params)
    with Cons.prems(3) have lt: "requestId c < 2 ^ 53" by simp
    let ?c = "sendRequest c now act params"
    have rid: "requestId ?c = requestId c + 1"
      using lt by (simp add: sendRequest_def incr_def Let_def)
    have ech: "map echo (calls ?c) = map echo (calls c) @ [mint (requestId c + 1) now]"
      using lt by (simp add: sendRequest_def incr_def Let_def)
    have new: "mint (requestId c + 1) now \<notin> set (map echo (calls c))"
    proof
      assume "mint (requestId c + 1) now \<in> set (map echo (calls c))"
      with Cons.prems(1) obtain n t where "mint (requestId c + 1) now = mint n t" and "n \<le> requestId c"
        by blast
      then show False using mint_counter by fastforce
    qed
    have 1: "\<forall>e \<in> set (map echo (calls ?c)). \<exists>n t. e = mint n t \<and> n \<le> requestId ?c"
    proof
      fix e assume "e \<in> set (map echo (calls ?c))"
      then consider "e \<in> set (map echo (calls c))" | "e = mint (requestId c + 1) now"
        unfolding ech by auto
      then show "\<exists>n t. e = mint n t \<and> n \<le> requestId ?c"
      proof cases
        case 1
        with Cons.prems(1) obtain n t where "e = mint n t" "n \<le> requestId c" by blast
        then show ?thesis unfolding rid by (intro exI [of _ n] exI [of _ t]) simp
      next
        case 2
        then show ?thesis unfolding rid by blast
      qed
    qed
    have 2: "distinct (map echo (calls ?c))"
      unfolding ech using Cons.prems(2) new by simp
    have 3: "requestId ?c + length (filter is_send acts) \<le> 2 ^ 53"
      using Cons.prems(3) Send rid by simp
    from Cons.IH [OF 1 2 3] Send show ?thesis by simp
  next
    case (Event ev)
    have 1: "\<forall>e \<in> set (map echo (calls (conn_step c ev))). \<exists>n t. e = mint n t \<and> n \<le> requestId (conn_step c ev)"
      using Cons.prems(1) by simp
    have 2: "distinct (map echo (calls (conn_step c ev)))"
      using Cons.prems(2) by simp
    have 3: "requestId (conn_step c ev) + length (filter is_send acts) \<le> 2 ^ 53"
      using Cons.prems(3) Event by simp
    from Cons.IH [OF 1 2 3] Event show ?thesis by simp
  qed
qed

text \<open>
  Claim C9. A call of \<^verbatim>\<open>sendRequest\<close> advances the counter by one and mints the
  token of the new counter value; tokens of different counter values differ whatever
  the clock reads; so in every run of calls and events on a connection all minted
  tokens are pairwise distinct. The counter is a JavaScript number and is exact for
  the first \<open>2 ^ 53\<close> calls, which is the range covered.
\<close>

theorem minted_tokens_distinct:
  "(requestId c < 2 ^ 53 \<longrightarrow>
       requestId (sendRequest c now act params) = requestId c + 1
     \<and> echo (last (calls (sendRequest c now act params))) = mint (requestId c + 1) now)
   \<and> (n \<noteq> m \<longrightarrow> mint n t \<noteq> mint m u)
   \<and> (length (filter is_send acts) \<le> 2 ^ 53 \<longrightarrow>
        distinct (map echo (calls (conn_run conn0 acts))))"
proof -
  have a: "requestId c < 2 ^ 53 \<longrightarrow>
       requestId (sendRequest c now act params) = requestId c + 1
     \<and> echo (last (calls (sendRequest c now act params))) = mint (requestId c + 1) now"
    by (simp add: sendRequest_def incr_def Let_def)
  have b: "n \<noteq> m \<longrightarrow> mint n t \<noteq> mint m u"
    using mint_counter by blast
  have c: "length (filter is_send acts) \<le> 2 ^ 53 \<longrightarrow>
        distinct (map echo (calls (conn_run conn0 acts)))"
    using tokens_fresh_inv [of conn0 acts] by (simp add: conn0_def)
  from a b c show ?thesis by blast
qed

theorem minted_tokens_distinct_witness:
  "map echo (calls (conn_run conn0 [Send 7 (asc ''a'') JNull, Event Closed, Send 7 (asc ''a'') JNull]))
     = [asc ''req_1_7'', asc ''req_2_7'']
   \<and> distinct (map echo (calls (conn_run conn0 [Send 7 (asc ''a'') JNull, Event Closed, Send 7 (asc ''a'') JNull])))
   \<and> requestId (sendRequest conn0 7 (asc ''a'') JNull) = 1
   \<and> mint 1 7 \<noteq> mint 2 7"
  using minted_tokens_distinct [of conn0 7 "asc ''a''" JNull 1 2 7 7
      "[Send 7 (asc ''a'') JNull, Event Closed, Send 7 (asc ''a'') JNull]"]
  by (simp add: conn_run_def conn0_def sendRequest_def incr_def mint_def asc_def digits10.simps Let_def)

section \<open>Routing of responses\<close>

lemma member_nullish: "nullish v \<Longrightarrow> member v k = JUndef"
  by (cases v) simp_all

lemma handler_conv:
  "handler k raw =
     (if frame_echo raw = JStr (echo k)
      then k\<lparr> timer := None, listening := False,
               promise := settle_with (promise k) (response_result (action k) (frame_data raw)) \<rparr>
      else k)"
  by (cases raw) (auto simp: handler_def frame_echo_def frame_data_def member_nullish)

lemma length_emit_message [simp]: "length (calls (emit_message c raw)) = length (calls c)"
  by (simp add: emit_message_def)

lemma emit_message_nth:
  "i < length (calls c) \<Longrightarrow>
   calls (emit_message c raw) ! i =
     (if listening (calls c ! i) then handler (calls c ! i) raw else calls c ! i)"
  by (simp add: emit_message_def)

lemma length_emit_all [simp]: "length (calls (foldl emit_message c fs)) = length (calls c)"
  by (induction fs arbitrary: c) simp_all

lemma echoes_emit_message [simp]: "map echo (calls (emit_message c raw)) = map echo (calls c)"
  using echoes_conn_step [of c "Frame raw"] by simp

lemma echoes_emit_all [simp]: "map echo (calls (foldl emit_message c fs)) = map echo (calls c)"
  by (induction fs arbitrary: c) simp_all

lemma emit_all_nth:
  "i < length (calls c) \<Longrightarrow>
   calls (foldl emit_message c fs) ! i =
     foldl (\<lambda>k raw. if listening k then handler k raw else k) (calls c ! i) fs"
  by (induction fs arbitrary: c) (simp_all add: emit_message_nth)

lemma deaf_call_stays:
  "\<not> listening k \<Longrightarrow> foldl (\<lambda>k raw. if listening k then handler k raw else k) k fs = k"
  by (induction fs) simp_all

lemma first_response_settles:
  "listening k \<Longrightarrow> promise k = Pending \<Longrightarrow>
   promise (foldl (\<lambda>k raw. if listening k then handler k raw else k) k fs) =
     (case find (\<lambda>raw. frame_echo raw = JStr (echo k)) fs of
        None \<Rightarrow> Pending
      | Some raw \<Rightarrow> response_result (action k) (frame_data raw))"
proof (induction fs)
  case Nil
  then show ?case by simp
next
  case (Cons raw fs)
  show ?case
  proof (cases "frame_echo raw = JStr (echo k)")
    case True
    let ?k = "k\<lparr> timer := None, listening := False,
                  promise := response_result (action k) (frame_data raw) \<rparr>"
    have "handler k raw = ?k"
      using Cons.prems True by (simp add: handler_conv settle_with_def)
    moreover have "foldl (\<lambda>k raw. if listening k then handler k raw else k) ?k fs = ?k"
      by (rule deaf_call_stays) simp
    ultimately show ?thesis using Cons.prems True by simp
  next
    case False
    then have "handler k raw = k" by (simp add: handler_conv)
    with Cons False show ?thesis by simp
  qed
qed

lemma emit_message_delivers:
  assumes dist: "distinct (map echo (calls c))"
    and i: "i < length (calls c)"
    and lst: "listening (calls c ! i)"
    and pend: "promise (calls c ! i) = Pending"
    and hit: "frame_echo raw = JStr (echo (calls c ! i))"
  shows "calls (emit_message c raw) =
           (calls c)[i := (calls c ! i)\<lparr> timer := None, listening := False,
              promise := response_result (action (calls c ! i)) (frame_data raw) \<rparr>]"
proof (rule nth_equalityI)
  show "length (calls (emit_message c raw)) = length ((calls c)[i := (calls c ! i)\<lparr> timer := None,
          listening := False, promise := response_result (action (calls c ! i)) (frame_data raw) \<rparr>])"
    by simp
next
  fix j assume "j < length (calls (emit_message c raw))"
  then have j: "j < length (calls c)" by simp
  show "calls (emit_message c raw) ! j = (calls c)[i := (calls c ! i)\<lparr> timer := None,
          listening := False, promise := response_result (action (calls c ! i)) (frame_data raw) \<rparr>] ! j"
  proof (cases "j = i")
    case True
    then show ?thesis
      using i lst pend hit by (simp add: emit_message_nth handler_conv settle_with_def)
  next
    case False
    have "map echo (calls c) ! j \<noteq> map echo (calls c) ! i"
      using dist i j False by (simp add: nth_eq_iff_index_eq del: nth_map)
    then have "echo (calls c ! j) \<noteq> echo (calls c ! i)"
      using i j by simp
    then have "handler (calls c ! j) raw = calls c ! j"
      using hit by (simp add: handler_conv)
    then show ?thesis
      using j False by (simp add: emit_message_nth)
  qed
qed

text \<open>
  Claim C1. On a connection whose calls carry pairwise distinct tokens, take a call
  that is still pending. A frame carrying its token settles exactly that call, with
  the result the frame encodes, removes its listener and clears its timer, and leaves
  every other call as it was; a frame with another token leaves the call as it was.
  Hence after any sequence of frames the promise of the call is settled by the first
  frame that carries its token, wherever the frames for other calls are interleaved,
  and is still pending when there is none. The tokens stay as they were.
\<close>

theorem responses_routed_by_token:
  assumes "distinct (map echo (calls c))"
    and "i < length (calls c)"
    and "listening (calls c ! i)"
    and "promise (calls c ! i) = Pending"
  shows "(frame_echo raw = JStr (echo (calls c ! i)) \<longrightarrow>
            calls (emit_message c raw) =
              (calls c)[i := (calls c ! i)\<lparr> timer := None, listening := False,
                 promise := response_result (action (calls c ! i)) (frame_data raw) \<rparr>])
       \<and> (frame_echo raw \<noteq> JStr (echo (calls c ! i)) \<longrightarrow>
            calls (emit_message c raw) ! i = calls c ! i)
       \<and> promise (calls (foldl emit_message c fs) ! i) =
           (case find (\<lambda>raw. frame_echo raw = JStr (echo (calls c ! i))) fs of
              None \<Rightarrow> Pending
            | Some raw \<Rightarrow> response_result (action (calls c ! i)) (frame_data raw))
       \<and> distinct (map echo (calls (foldl emit_message c fs)))"
proof -
  have a: "frame_echo raw = JStr (echo (calls c ! i)) \<longrightarrow>
            calls (emit_message c raw) =
              (calls c)[i := (calls c ! i)\<lparr> timer := None, listening := False,
                 promise := response_result (action (calls c ! i)) (frame_data raw) \<rparr>]"
    using emit_message_delivers [OF assms] by blast
  have b: "frame_echo raw \<noteq> JStr (echo (calls c ! i)) \<longrightarrow>
            calls (emit_message c raw) ! i = calls c ! i"
    using assms(2) by (simp add: emit_message_nth handler_conv)
  have c: "promise (calls (foldl emit_message c fs) ! i) =
           (case find (\<lambda>raw. frame_echo raw = JStr (echo (calls c ! i))) fs of
              None \<Rightarrow> Pending
            | Some raw \<Rightarrow> response_result (action (calls c ! i)) (frame_data raw))"
    using assms(2,3,4) by (simp add: emit_all_nth first_response_settles)
  have d: "distinct (map echo (calls (foldl emit_message c fs)))"
    using assms(1) by simp
  from a b c d show ?thesis by blast
qed

lemma two_calls_eval:
  "two_calls =
     \<lparr> requestId = 2,
       calls = [\<lparr> echo = asc ''req_1_7'', action = asc ''a'', timer = Some 15000, listening = True,
                   promise = Pending \<rparr>,
                \<lparr> echo = asc ''req_2_7'', action = asc ''b'', timer = Some 15000, listening = True,
                   promise = Pending \<rparr>],
       sent = [JObj [(asc ''action'', JStr (asc ''a'')), (asc ''params'', JNull),
                     (asc ''echo'', JStr (asc ''req_1_7''))],
               JObj [(asc ''action'', JStr (asc ''b'')), (asc ''params'', JNull),
                     (asc ''echo'', JStr (asc ''req_2_7''))]] \<rparr>"
  by (simp add: two_calls_def conn_run_def conn0_def sendRequest_def incr_def mint_def asc_def
      digits10.simps Let_def)

theorem responses_routed_by_token_witness:
  "distinct (map echo (calls two_calls))
   \<and> calls (emit_message two_calls (response (asc ''req_2_7'') 0 (JNum 9))) =
       [\<lparr> echo = asc ''req_1_7'', action = asc ''a'', timer = Some 15000, listening = True,
           promise = Pending \<rparr>,
        \<lparr> echo = asc ''req_2_7'', action = asc ''b'', timer = None, listening = False,
           promise = Resolved (JNum 9) \<rparr>]
   \<and> promise (calls (foldl emit_message two_calls
        [response (asc ''req_1_7'') 5 JNull, None, response (asc ''req_2_7'') 0 (JNum 9),
         response (asc ''req_2_7'') 0 (JNum 10)]) ! 1) = Resolved (JNum 9)"
  using responses_routed_by_token [of two_calls 1 "response (asc ''req_2_7'') 0 (JNum 9)"
      "[response (asc ''req_1_7'') 5 JNull, None, response (asc ''req_2_7'') 0 (JNum 9),
        response (asc ''req_2_7'') 0 (JNum 10)]"]
  by (simp add: two_calls_eval frame_echo_def frame_data_def response_def response_result_def asc_def)

section \<open>Timeouts and closures of a request\<close>

lemma one_call_eval:
  "one_call =
     \<lparr> requestId = 1,
       calls = [\<lparr> echo = asc ''req_1_7'', action = asc ''get_group_msg_history'', timer = Some 15000,
                   listening = True, promise = Pending \<rparr>],
       sent = [JObj [(asc ''action'', JStr (asc ''get_group_msg_history'')), (asc ''params'', JNull),
                     (asc ''echo'', JStr (asc ''req_1_7''))]] \<rparr>"
  by (simp add: one_call_def conn0_def sendRequest_def incr_def mint_def asc_def
      digits10.simps Let_def)

text \<open>
  Claim C2, at the input where the code departs from it: one call, no frame before its
  timer of 15000 milliseconds fires, then a frame with its token. The timer rejects
  the promise with the timeout error that names the action, but the listener of the
  call is still registered after the timeout; the late frame reaches the listener,
  which removes itself only then, and the promise keeps the timeout error.
\<close>

theorem timeout_leaves_listener:
  "calls one_call =
     [\<lparr> echo = asc ''req_1_7'', action = asc ''get_group_msg_history'', timer = Some 15000,
         listening = True, promise = Pending \<rparr>]
   \<and> calls (conn_run one_call [Event (Expire 0)]) =
     [\<lparr> echo = asc ''req_1_7'', action = asc ''get_group_msg_history'', timer = None,
         listening = True,
         promise = Rejected (RequestTimeout (asc ''get_group_msg_history'')) \<rparr>]
   \<and> calls (conn_run one_call [Event (Expire 0), Event (Frame (response (asc ''req_1_7'') 0 (JNum 9)))]) =
     [\<lparr> echo = asc ''req_1_7'', action = asc ''get_group_msg_history'', timer = None,
         listening = False,
         promise = Rejected (RequestTimeout (asc ''get_group_msg_history'')) \<rparr>]"
  by (simp add: one_call_eval conn_run_def expire_def emit_message_def handler_def response_def
      settle_with_def asc_def)

text \<open>
  Claim C3 as stated fails: after the connection has opened and closed, the request of
  \<^verbatim>\<open>fetch.mjs\<close> is still pending, and the run ends only when the request timer
  fires 15000 milliseconds after the request, with the timeout error.
\<close>

theorem close_leaves_request_pending:
  "fetch_main plain_runtime env0 fetch_argv 0 [(7, Open), (1, Close)] =
     Requesting \<lparr> requestId = 1,
       calls = [\<lparr> echo = asc ''req_1_7'', action = asc ''get_group_msg_history'', timer = Some 15000,
                   listening = True, promise = Pending \<rparr>],
       sent = [JObj [(asc ''action'', JStr (asc ''get_group_msg_history'')),
                     (asc ''params'', JObj [(asc ''group_id'', JNum 123), (asc ''count'', JNum 100)]),
                     (asc ''echo'', JStr (asc ''req_1_7''))]] \<rparr>
   \<and> fetch_main plain_runtime env0 fetch_argv 0 [(7, Open), (1, Close), (15000, Timeout)] =
     FFinished (ErrorExit (RequestTimeout (asc ''get_group_msg_history'')))"
  by (simp add: fetch_main_def parseArgs_fetch_def env0_def fetch_argv_def env_or_def present_def
      next_arg_def asc_def history_params_def json_num_def parseInt_arg_def parse_int_def
      to_double_def round_nat_def is_ws_def is_digit_def digits_value_def
      conn0_def sendRequest_def incr_def mint_def digits10.simps Let_def
      await_request_def expire_def settle_with_def)

text \<open>
  Claim C3, amended. A closure of the connection settles no request: nothing listens
  for it, every call stays as it was and \<^verbatim>\<open>main\<close> keeps waiting. A request that is
  pending with its timer armed when the connection closes fails with the timeout
  error naming its action when that timer fires.
\<close>

theorem close_settles_nothing:
  "conn_step c Closed = c
   \<and> fetch_step rt a (Requesting c) (now, Close) = Requesting c
   \<and> (i < length (calls c) \<and> timer (calls c ! i) \<noteq> None \<and> promise (calls c ! i) = Pending \<longrightarrow>
        promise (calls (conn_run c [Event Closed, Event (Expire i)]) ! i) =
          Rejected (RequestTimeout (action (calls c ! i))))"
  by (simp add: conn_run_def expire_def settle_with_def)

theorem close_settles_nothing_witness:
  "conn_step one_call Closed = one_call
   \<and> promise (calls one_call ! 0) = Pending
   \<and> promise (calls (conn_run one_call [Event Closed, Event (Expire 0)]) ! 0) =
        Rejected (RequestTimeout (asc ''get_group_msg_history''))"
  using close_settles_nothing [of one_call plain_runtime fetch_args0 0 0]
  by (simp add: one_call_eval)

section \<open>The collection session\<close>

lemma sender_name_prints:
  "(\<exists>name. sender_name rt (member event (asc ''sender'')) = Inr name) \<longleftrightarrow> sender_prints event"
  by (auto simp: sender_name_def sender_prints_def to_string_def split: if_splits)

lemma formatMessage_record_iff:
  assumes "\<not> nullish event"
  shows "(\<exists>f. formatMessage rt event = Inr (Some f)) \<longleftrightarrow>
           nonempty_text rt event \<and> sender_prints event \<and> time_renders rt event"
proof (cases "extractText rt (member event (asc ''message''))")
  case (Inl err)
  with assms show ?thesis
    by (simp add: formatMessage_def get_prop_def nonempty_text_def)
next
  case (Inr body)
  show ?thesis
  proof (cases "body = []")
    case True
    with Inr assms show ?thesis
      by (simp add: formatMessage_def get_prop_def nonempty_text_def)
  next
    case False
    show ?thesis
    proof (cases "sender_name rt (member event (asc ''sender''))")
      case (Inl err)
      then have "\<not> sender_prints event"
        using sender_name_prints [of rt event] by simp
      with Inl Inr False assms show ?thesis
        by (simp add: formatMessage_def get_prop_def)
    next
      case name: (Inr nm)
      then have "sender_prints event"
        using sender_name_prints [of rt event] by auto
      with name Inr False assms show ?thesis
        by (auto simp: formatMessage_def get_prop_def nonempty_text_def time_renders_def
            split: sum.splits if_splits)
    qed
  qed
qed

lemma accepts_not_nullish: "accepts rt target event \<Longrightarrow> \<not> nullish event"
  by (cases event) (simp_all add: accepts_def)

lemma on_message_length:
  "length (on_message rt target buf raw) = length buf + (if kept rt target raw then 1 else 0)"
proof (cases raw)
  case None
  then show ?thesis
    by (simp add: on_message_def kept_def counted_def frame_data_def accepts_def)
next
  case (Some event)
  show ?thesis
  proof (cases "accepts rt target event")
    case False
    with Some show ?thesis
      by (simp add: on_message_def kept_def counted_def frame_data_def)
  next
    case True
    then have nn: "\<not> nullish event" by (rule accepts_not_nullish)
    show ?thesis
    proof (cases "\<exists>f. formatMessage rt event = Inr (Some f)")
      case True
      then obtain f where f: "formatMessage rt event = Inr (Some f)" by blast
      then have "nonempty_text rt event \<and> sender_prints event \<and> time_renders rt event"
        using formatMessage_record_iff [OF nn] by blast
      with Some \<open>accepts rt target event\<close> nn f show ?thesis
        by (simp add: on_message_def kept_def counted_def frame_data_def)
    next
      case False
      then have "\<not> (nonempty_text rt event \<and> sender_prints event \<and> time_renders rt event)"
        using formatMessage_record_iff [OF nn] by blast
      moreover from False have "on_message rt target buf (Some event) = buf"
        using nn \<open>accepts rt target event\<close>
        by (auto simp: on_message_def split: sum.splits option.splits)
      ultimately show ?thesis using Some
        by (auto simp: kept_def counted_def frame_data_def)
    qed
  qed
qed

lemma buffer_length:
  "length (foldl (on_message rt target) buf fs) = length buf + length (filter (kept rt target) fs)"
  by (induction fs arbitrary: buf) (simp_all add: on_message_length)

lemma collecting_run:
  "list_all no_end evs \<Longrightarrow>
   collect_run rt a t0 (Collecting buf) evs =
     Collecting (foldl (on_message rt (targetGroup a)) buf (event_frames evs))"
  unfolding collect_run_def
proof (induction evs arbitrary: buf)
  case Nil
  then show ?case by simp
next
  case (Cons e evs)
  obtain t ev where e: "e = (t, ev)" by (cases e)
  with Cons show ?case by (cases ev) simp_all
qed

lemma collect_run_append:
  "collect_run rt a t0 s (evs @ evs') = collect_run rt a t0 (collect_run rt a t0 s evs) evs'"
  by (simp add: collect_run_def)

lemma off_scope_ignored:
  "\<not> group_matches rt target event \<Longrightarrow> on_message rt target buf (Some event) = buf"
  by (simp add: on_message_def accepts_def group_matches_def)

lemma stamp_append: "stamp t (xs @ ys) = stamp t xs @ stamp (t + elapsed xs) ys"
  by (induction xs arbitrary: t) (auto simp: elapsed_def add.assoc)

lemma event_frames_stamp [simp]: "event_frames (stamp t evs) = event_frames evs"
proof (induction evs arbitrary: t)
  case Nil
  then show ?case by simp
next
  case (Cons e evs)
  obtain d ev where "e = (d, ev)" by (cases e)
  with Cons show ?case by (cases ev) simp_all
qed

lemma no_end_stamp [simp]: "list_all no_end (stamp t evs) = list_all no_end evs"
proof (induction evs arbitrary: t)
  case Nil
  then show ?case by simp
next
  case (Cons e evs)
  obtain d ev where "e = (d, ev)" by (cases e)
  with Cons show ?case by (cases ev) simp_all
qed

text \<open>A session that has connected and met events that end nothing, and its last event.\<close>

lemma session_collecting:
  assumes "list_all no_end evs"
  shows "collect_session rt a t0 ((d1, Open) # evs) =
           Collecting (foldl (on_message rt (targetGroup a)) [] (event_frames evs))"
  using collecting_run [of "stamp (t0 + d1) evs" rt a t0 "[]"] assms
  by (simp add: collect_session_def collect_run_def)

lemma session_last:
  "collect_session rt a t0 ((d1, Open) # evs @ [(d2, ev)]) =
     collect_step rt a t0 (collect_session rt a t0 ((d1, Open) # evs))
       (t0 + d1 + elapsed evs + d2, ev)"
  by (simp add: collect_session_def collect_run_def stamp_append add.assoc)

lemmas collect_eval = collect_main_def collect_session_def parseArgs_def env0_def collect_argv_def
  env_or_def present_def next_arg_def num_or_def parseInt_arg_def collect_run_def targetGroup_def
  parseInt_def parse_int_def to_double_def round_nat_def is_digit_def digits_value_def
  num_to_string_def digits10.simps Let_def on_message_def accepts_def num_eq_def
  formatMessage_def sender_name_def time_clip_def group_message_def odd_sender_message_def
  hi_record_def make_report_def js_eval




text \<open>
  Claim C5 as stated fails, in two ways. A group message of the target group with the
  text \<^verbatim>\<open>hi\<close> whose \<^verbatim>\<open>time\<close> is beyond the range of dates matches the scope and
  yields non-empty text, yet it is not appended, because \<^verbatim>\<open>toISOString\<close> throws
  inside the listener's \<^verbatim>\<open>try\<close> block. The same holds of such a message with a valid
  time whose sender has neither nickname nor card and a \<^verbatim>\<open>user_id\<close> that is an object
  with a member \<^verbatim>\<open>toString\<close>: the template of the sender placeholder throws.
\<close>

theorem unrenderable_event_not_buffered:
  "length (filter (counted plain_runtime (Finite 123)) [Some (group_message 123 10000000000000)]) = 1
   \<and> length (foldl (on_message plain_runtime (Finite 123)) []
        [Some (group_message 123 10000000000000)]) = 0
   \<and> length (filter (counted plain_runtime (Finite 123))
        [Some (odd_sender_message 123 1700000000)]) = 1
   \<and> length (foldl (on_message plain_runtime (Finite 123)) []
        [Some (odd_sender_message 123 1700000000)]) = 0"
  by (simp add: counted_def frame_data_def nonempty_text_def collect_eval)

text \<open>
  Claim C5, amended. An event whose group id, read by \<^verbatim>\<open>parseInt\<close>, is not the target
  is never appended. The buffer grows by exactly the frames that pass the scope filter,
  yield non-empty extracted text, have a sender that prints (a truthy nickname or card,
  or a user id that \<^verbatim>\<open>String\<close> converts) and carry a time that is falsy or converts
  to a valid date; so the report of a session counts exactly those among the frames
  observed before the deadline.
\<close>

theorem buffer_counts_kept_frames:
  "(\<not> group_matches rt target event \<longrightarrow> on_message rt target buf (Some event) = buf)
   \<and> length (foldl (on_message rt target) buf fs) = length buf + length (filter (kept rt target) fs)
   \<and> (list_all no_end evs \<longrightarrow>
        collect_run rt a t0 (Collecting []) (evs @ [(now, Timeout)]) =
          Finished (Report (make_report a t0 now
             (foldl (on_message rt (targetGroup a)) [] (event_frames evs))))
        \<and> collected_count (make_report a t0 now
             (foldl (on_message rt (targetGroup a)) [] (event_frames evs))) =
          length (filter (kept rt (targetGroup a)) (event_frames evs)))"
proof -
  have a: "\<not> group_matches rt target event \<longrightarrow> on_message rt target buf (Some event) = buf"
    using off_scope_ignored by blast
  have b: "length (foldl (on_message rt target) buf fs) = length buf + length (filter (kept rt target) fs)"
    by (rule buffer_length)
  have c: "list_all no_end evs \<longrightarrow>
        collect_run rt a t0 (Collecting []) (evs @ [(now, Timeout)]) =
          Finished (Report (make_report a t0 now
             (foldl (on_message rt (targetGroup a)) [] (event_frames evs))))
        \<and> collected_count (make_report a t0 now
             (foldl (on_message rt (targetGroup a)) [] (event_frames evs))) =
          length (filter (kept rt (targetGroup a)) (event_frames evs))"
  proof
    assume q: "list_all no_end evs"
    have "collect_run rt a t0 (Collecting []) (evs @ [(now, Timeout)]) =
          Finished (Report (make_report a t0 now
             (foldl (on_message rt (targetGroup a)) [] (event_frames evs))))"
      by (simp add: collect_run_append collecting_run [OF q]) (simp add: collect_run_def)
    moreover have "collected_count (make_report a t0 now
             (foldl (on_message rt (targetGroup a)) [] (event_frames evs))) =
          length (filter (kept rt (targetGroup a)) (event_frames evs))"
      by (simp add: make_report_def buffer_length)
    ultimately show "collect_run rt a t0 (Collecting []) (evs @ [(now, Timeout)]) =
          Finished (Report (make_report a t0 now
             (foldl (on_message rt (targetGroup a)) [] (event_frames evs))))
        \<and> collected_count (make_report a t0 now
             (foldl (on_message rt (targetGroup a)) [] (event_frames evs))) =
          length (filter (kept rt (targetGroup a)) (event_frames evs))"
      by blast
  qed
  from a b c show ?thesis by blast
qed

theorem buffer_counts_kept_frames_witness:
  "\<not> group_matches plain_runtime (Finite 123) (group_message 456 1)
   \<and> on_message plain_runtime (Finite 123) [] (Some (group_message 456 1)) = []
   \<and> length (foldl (on_message plain_runtime (Finite 123)) []
        [Some (group_message 123 1), None, Some (group_message 456 1),
         Some (odd_sender_message 123 1)]) = 1
   \<and> list_all no_end [(1, Message (Some (group_message 123 1))), (2, Close),
        (3, Message (Some (group_message 456 1))), (4, Message (Some (group_message 123 4)))]
   \<and> collect_run plain_runtime collect_args0 0 (Collecting [])
        ([(1, Message (Some (group_message 123 1))), (2, Close),
          (3, Message (Some (group_message 456 1))), (4, Message (Some (group_message 123 4)))]
         @ [(5, Timeout)]) =
       Finished (Report (make_report collect_args0 0 5 [hi_record 1, hi_record 4]))"
  using buffer_counts_kept_frames [of plain_runtime "Finite 123" "group_message 456 1"
      "[]" "[Some (group_message 123 1), None, Some (group_message 456 1),
             Some (odd_sender_message 123 1)]"
      "[(1, Message (Some (group_message 123 1))), (2, Close),
        (3, Message (Some (group_message 456 1))), (4, Message (Some (group_message 123 4)))]"
      collect_args0 0 5]
  by (simp add: collect_args0_def kept_def counted_def frame_data_def nonempty_text_def
      time_renders_def sender_prints_def group_matches_def collect_eval)

lemma bit_length_bound: "0 < n \<Longrightarrow> 2 ^ (bit_length n - 1) \<le> n"
proof (induction n rule: bit_length.induct)
  case (1 n)
  show ?case
  proof (cases "n div 2 = 0")
    case True
    with "1.prems" show ?thesis
      by (simp add: bit_length.simps [of n] bit_length.simps [of 0])
  next
    case False
    then have pos: "0 < n div 2" by simp
    with "1.IH" "1.prems" have ih: "2 ^ (bit_length (n div 2) - 1) \<le> n div 2" by simp
    have "0 < bit_length (n div 2)"
      using pos by (simp add: bit_length.simps [of "n div 2"])
    then have "(2::nat) ^ bit_length (n div 2) = 2 * 2 ^ (bit_length (n div 2) - 1)"
      by (cases "bit_length (n div 2)") simp_all
    with ih have "(2::nat) ^ bit_length (n div 2) \<le> n" by simp
    with "1.prems" show ?thesis by (simp add: bit_length.simps [of n])
  qed
qed

lemma round_nat_zero: "round_nat n = Some 0 \<Longrightarrow> n = 0"
proof (cases "n < 2 ^ 53")
  case True
  assume "round_nat n = Some 0"
  with True show ?thesis by (simp add: round_nat_def)
next
  case False
  assume r: "round_nat n = Some 0"
  let ?e = "bit_length n - 53"
  from False have pos: "0 < n" by (cases n) simp_all
  have "(2::nat) ^ ?e \<le> 2 ^ (bit_length n - 1)"
    by (rule power_increasing) simp_all
  also have "\<dots> \<le> n" using pos by (rule bit_length_bound)
  finally have "0 < n div 2 ^ ?e"
    by (simp add: div_greater_zero_iff)
  with r False show ?thesis
    by (auto simp: round_nat_def Let_def split: if_splits)
qed

lemma to_double_zero: "to_double k = Finite 0 \<Longrightarrow> k = 0"
  by (auto simp: to_double_def split: if_splits option.splits dest: round_nat_zero)

lemma durationMs_zero: "durationMs a = Finite 0 \<Longrightarrow> duration a = Finite 0"
  by (cases "duration a") (auto simp: durationMs_def num_times_def split: jsnum.splits
      dest!: to_double_zero)

lemma parseArgs_loop_duration:
  "parseArgs_loop xs a = Inr a' \<Longrightarrow> duration a \<noteq> Finite 0 \<Longrightarrow> duration a' \<noteq> Finite 0"
proof (induction xs a rule: parseArgs_loop.induct)
  case (1 a)
  then show ?case by simp
next
  case (2 x xs a)
  then show ?case
    by (auto simp: num_or_def split: if_splits)
qed

lemma parseArgs_duration:
  "parseArgs e argv = Inr a \<Longrightarrow> duration a \<noteq> Finite 0"
  by (auto simp: parseArgs_def split: sum.splits if_splits dest: parseArgs_loop_duration)

text \<open>
  Claim C6 as stated fails: started with \<^verbatim>\<open>--duration 0\<close> the session runs with the
  default of 60 minutes, arms its timer with 3600000 milliseconds and collects what
  arrives in that time.
\<close>

theorem zero_duration_runs_an_hour:
  "(parseArgs env0 (collect_argv @ [asc ''--duration'', asc ''0'']) :: collect_report outcome + collect_args)
     = Inr collect_args0
   \<and> armed_timer collect_args0 (Collecting []) = Some (Finite 3600000)
   \<and> collect_main plain_runtime env0 (collect_argv @ [asc ''--duration'', asc ''0'']) 0
       [(1, Open), (1, Message (Some (group_message 123 1700000000))), (3600000, Timeout)] =
     Finished (Report (make_report collect_args0 0 3600002 [hi_record 1700000000]))
   \<and> collected_count (make_report collect_args0 0 3600002 [hi_record 1700000000]) = 1
   \<and> duration_minutes (make_report collect_args0 0 3600002 [hi_record 1700000000]) = Finite 60"
  by (simp add: collect_args0_def armed_timer_def durationMs_def num_times_def collect_eval)

text \<open>
  Claim C6, amended. Every session whose duration timer fires when nothing is
  buffered, whatever events it has met since it connected (frames that were not kept,
  closures, errors), is finished with a success report with an empty record list and a
  count of 0, not with an error. A deadline of 0 minutes cannot be asked for:
  \<^verbatim>\<open>parseArgs\<close> never returns a duration of 0, it replaces 0 by the default of 60
  minutes, and the delay given to the timer is never 0.
\<close>

theorem empty_session_reports_success:
  "(list_all no_end evs \<and> foldl (on_message rt (targetGroup a)) [] (event_frames evs) = [] \<longrightarrow>
      (\<exists>r. collect_session rt a t0 ((d1, Open) # evs @ [(d2, Timeout)]) = Finished (Report r)
          \<and> success r
          \<and> messages r = []
          \<and> collected_count r = 0))
   \<and> ((parseArgs e argv :: collect_report outcome + collect_args) = Inr a' \<longrightarrow>
        duration a' \<noteq> Finite 0 \<and> durationMs a' \<noteq> Finite 0)"
proof -
  have a: "list_all no_end evs \<and> foldl (on_message rt (targetGroup a)) [] (event_frames evs) = [] \<longrightarrow>
      (\<exists>r. collect_session rt a t0 ((d1, Open) # evs @ [(d2, Timeout)]) = Finished (Report r)
          \<and> success r
          \<and> messages r = []
          \<and> collected_count r = 0)"
  proof
    assume h: "list_all no_end evs \<and> foldl (on_message rt (targetGroup a)) [] (event_frames evs) = []"
    then have 1: "collect_session rt a t0 ((d1, Open) # evs) = Collecting []"
      using session_collecting [of evs rt a t0 d1] by simp
    have "collect_session rt a t0 ((d1, Open) # evs @ [(d2, Timeout)]) =
        Finished (Report (make_report a t0 (t0 + d1 + elapsed evs + d2) []))"
      unfolding session_last 1 by simp
    then show "\<exists>r. collect_session rt a t0 ((d1, Open) # evs @ [(d2, Timeout)]) = Finished (Report r)
          \<and> success r
          \<and> messages r = []
          \<and> collected_count r = 0"
      by (simp add: make_report_def)
  qed
  have b: "(parseArgs e argv :: collect_report outcome + collect_args) = Inr a' \<longrightarrow>
        duration a' \<noteq> Finite 0 \<and> durationMs a' \<noteq> Finite 0"
    using parseArgs_duration [of e argv a'] durationMs_zero [of a'] by blast
  from a b show ?thesis by blast
qed

theorem empty_session_reports_success_witness:
  "list_all no_end [(5, Message (Some (group_message 456 1))), (5, Message None), (5, Close)]
   \<and> foldl (on_message plain_runtime (targetGroup collect_args0)) []
        (event_frames [(5, Message (Some (group_message 456 1))), (5, Message None), (5, Close)]) = []
   \<and> collect_session plain_runtime collect_args0 0
        ((1, Open) # [(5, Message (Some (group_message 456 1))), (5, Message None), (5, Close)]
         @ [(3599985, Timeout)]) =
       Finished (Report (make_report collect_args0 0 3600001 []))
   \<and> collected_count (make_report collect_args0 0 3600001 []) = 0
   \<and> (parseArgs env0 (collect_argv @ [asc ''--duration'', asc ''0'']) :: collect_report outcome + collect_args)
       = Inr collect_args0
   \<and> duration collect_args0 = Finite 60"
  using empty_session_reports_success [of
      "[(5, Message (Some (group_message 456 1))), (5, Message None), (5, Close)]"
      plain_runtime collect_args0 0 1 3599985 env0
      "collect_argv @ [asc ''--duration'', asc ''0'']" collect_args0]
  by (simp add: collect_args0_def collect_eval)

lemma closed_socket_waits:
  "list_all after_close post \<Longrightarrow> collect_run rt a t0 (Collecting buf) post = Collecting buf"
  unfolding collect_run_def
proof (induction post)
  case Nil
  then show ?case by simp
next
  case (Cons e post)
  obtain t ev where e: "e = (t, ev)" by (cases e)
  with Cons show ?case by (cases ev) simp_all
qed

text \<open>
  Claim C10. When the connection closes while the session is \<open>Collecting\<close>, the
  session stays \<open>Collecting\<close> with its buffer and its duration timer armed, whatever
  the closed socket still emits (it emits no message), and when the timer fires it is
  finished with the success report of exactly the records buffered before the closure.
\<close>

theorem close_does_not_end_session:
  "list_all after_close post \<longrightarrow>
     collect_run rt a t0 (Collecting buf) ((t, Close) # post) = Collecting buf
   \<and> armed_timer a (collect_run rt a t0 (Collecting buf) ((t, Close) # post)) = Some (durationMs a)
   \<and> collect_run rt a t0 (Collecting buf) ((t, Close) # post @ [(now, Timeout)]) =
       Finished (Report (make_report a t0 now buf))
   \<and> success (make_report a t0 now buf)
   \<and> messages (make_report a t0 now buf) = buf"
proof
  assume p: "list_all after_close post"
  have 1: "collect_run rt a t0 (Collecting buf) ((t, Close) # post) = Collecting buf"
    using closed_socket_waits [OF p, of rt a t0 buf] by (simp add: collect_run_def)
  have 2: "collect_run rt a t0 (Collecting buf) ((t, Close) # post @ [(now, Timeout)]) =
       Finished (Report (make_report a t0 now buf))"
    using collect_run_append [of rt a t0 "Collecting buf" "(t, Close) # post" "[(now, Timeout)]"] 1
    by (simp add: collect_run_def)
  show "collect_run rt a t0 (Collecting buf) ((t, Close) # post) = Collecting buf
   \<and> armed_timer a (collect_run rt a t0 (Collecting buf) ((t, Close) # post)) = Some (durationMs a)
   \<and> collect_run rt a t0 (Collecting buf) ((t, Close) # post @ [(now, Timeout)]) =
       Finished (Report (make_report a t0 now buf))
   \<and> success (make_report a t0 now buf)
   \<and> messages (make_report a t0 now buf) = buf"
    using 1 2 by (simp add: armed_timer_def make_report_def)
qed

theorem close_does_not_end_session_witness:
  "list_all after_close [(7, WsError (asc ''reset''))]
   \<and> collect_run plain_runtime collect_args0 0 (Collecting [hi_record 1])
       ((6, Close) # [(7, WsError (asc ''reset''))]) = Collecting [hi_record 1]
   \<and> collect_run plain_runtime collect_args0 0 (Collecting [hi_record 1])
       ((6, Close) # [(7, WsError (asc ''reset''))] @ [(3600001, Timeout)]) =
       Finished (Report (make_report collect_args0 0 3600001 [hi_record 1]))"
  using close_does_not_end_session [of "[(7, WsError (asc ''reset''))]" plain_runtime
      collect_args0 0 "[hi_record 1]" 6 3600001]
  by simp

section \<open>The one-shot fetch\<close>

lemma formats_not_nullish: "formats rt x \<Longrightarrow> \<not> nullish x"
  by (cases x) (simp_all add: formats_def formatMessage_def get_prop_def)

text \<open>
  When the formatter raises: on \<^verbatim>\<open>null\<close>, when the text extraction raises (a
  \<^verbatim>\<open>null\<close> segment, a text that \<^verbatim>\<open>String\<close> cannot convert), and when the text is
  non-empty and the sender does not print or the time does not render.
\<close>

lemma formats_iff:
  "formats rt x \<longleftrightarrow>
     \<not> nullish x \<and>
     (case extractText rt (member x (asc ''message'')) of
        Inl e \<Rightarrow> False
      | Inr t \<Rightarrow> t = [] \<or> (sender_prints x \<and> time_renders rt x))"
proof (cases "nullish x")
  case True
  then show ?thesis by (simp add: formats_def formatMessage_def get_prop_def)
next
  case False
  show ?thesis
  proof (cases "formatMessage rt x")
    case (Inl err)
    then have "\<not> (\<exists>f. formatMessage rt x = Inr (Some f))" by simp
    then have "\<not> (nonempty_text rt x \<and> sender_prints x \<and> time_renders rt x)"
      using formatMessage_record_iff [OF False] by blast
    moreover have "formatMessage rt x \<noteq> Inr None" using Inl by simp
    then have "extractText rt (member x (asc ''message'')) \<noteq> Inr []"
      using formatMessage_null_iff [of rt x] False by (simp add: get_prop_def)
    ultimately show ?thesis
      using Inl False by (auto simp: formats_def nonempty_text_def split: sum.splits)
  next
    case (Inr r)
    show ?thesis
    proof (cases r)
      case None
      with Inr have "extractText rt (member x (asc ''message'')) = Inr []"
        using formatMessage_null_iff [of rt x] False by (simp add: get_prop_def)
      with Inr False show ?thesis by (simp add: formats_def)
    next
      case (Some f)
      with Inr have "nonempty_text rt x \<and> sender_prints x \<and> time_renders rt x"
        using formatMessage_record_iff [OF False] by blast
      with Inr False show ?thesis
        by (auto simp: formats_def nonempty_text_def split: sum.splits)
    qed
  qed
qed

lemma formats_some_iff:
  assumes "formats rt x"
  shows "(\<exists>r. formatMessage rt x = Inr r \<and> r \<noteq> None) \<longleftrightarrow> nonempty_text rt x"
proof -
  have nn: "\<not> nullish x" using assms by (rule formats_not_nullish)
  obtain r where r: "formatMessage rt x = Inr r"
    using assms by (auto simp: formats_def split: sum.splits)
  show ?thesis
  proof (cases r)
    case None
    with r have "\<exists>m. get_prop x (asc ''message'') = Inr m \<and> extractText rt m = Inr []"
      using formatMessage_null_iff by blast
    then have "\<not> nonempty_text rt x"
      using nn by (auto simp: get_prop_def nonempty_text_def)
    with r None show ?thesis by simp
  next
    case (Some f)
    with r have "\<exists>f. formatMessage rt x = Inr (Some f)" by blast
    then have "nonempty_text rt x"
      using formatMessage_record_iff [OF nn] by blast
    with r Some show ?thesis by simp
  qed
qed

lemma format_all_counts:
  "list_all (formats rt) items \<Longrightarrow>
   \<exists>rs. format_all rt items = Inr rs
       \<and> length (filter (\<lambda>r. r \<noteq> None) rs) = length (filter (nonempty_text rt) items)"
proof (induction items)
  case Nil
  then show ?case by simp
next
  case (Cons x items)
  then obtain rs where rs: "format_all rt items = Inr rs"
      "length (filter (\<lambda>r. r \<noteq> None) rs) = length (filter (nonempty_text rt) items)"
    by auto
  from Cons.prems have fx: "formats rt x" by simp
  then obtain r where r: "formatMessage rt x = Inr r"
    by (auto simp: formats_def split: sum.splits)
  have "r \<noteq> None \<longleftrightarrow> nonempty_text rt x"
    using formats_some_iff [OF fx] r by simp
  with r rs show ?case by simp
qed

lemma rawMessages_list: "rawMessages (JArr items) = JArr items"
  by (simp add: rawMessages_def opt_prop_def js_or_def)

lemma rawMessages_nested:
  "member (JObj kvs) (asc ''messages'') = JArr items \<Longrightarrow> rawMessages (JObj kvs) = JArr items"
  by (simp add: rawMessages_def opt_prop_def js_or_def)

lemma fetch_result_counts:
  assumes "list_all (formats rt) items" and "rawMessages historyData = JArr items"
  shows "\<exists>r. fetch_result rt a now historyData = Inr r \<and> success r
           \<and> fetched_count r = length (filter (nonempty_text rt) items)
           \<and> length (messages r) = fetched_count r
           \<and> requested_count r = count a"
proof -
  obtain rs where "format_all rt items = Inr rs"
      "length (filter (\<lambda>r. r \<noteq> None) rs) = length (filter (nonempty_text rt) items)"
    using format_all_counts [OF assms(1)] by blast
  then show ?thesis
    using assms(2) by (simp add: fetch_result_def array_or_empty_def)
qed

lemma member_response [simp]:
  "member (frame_data (response e code payload)) (asc ''echo'') = JStr e"
  "member (frame_data (response e code payload)) (asc ''retcode'') = JNum code"
  "member (frame_data (response e code payload)) (asc ''data'') = payload"
  by (simp_all add: response_def frame_data_def asc_def)

lemma fetch_open_response:
  "foldl (fetch_step rt a) FConnecting [(t, Open), (now, Message (response (mint 1 t) 0 historyData))] =
     FFinished (case fetch_result rt a now historyData of
                  Inl e \<Rightarrow> ErrorExit (Uncaught e)
                | Inr r \<Rightarrow> Report r)"
proof -
  let ?c = "sendRequest conn0 t (asc ''get_group_msg_history'') (history_params a)"
  have c: "calls ?c = [\<lparr> echo = mint 1 t, action = asc ''get_group_msg_history'', timer = Some 15000,
                           listening = True, promise = Pending \<rparr>]"
    by (simp add: sendRequest_def conn0_def incr_def Let_def)
  have "frame_echo (response (mint 1 t) 0 historyData) = JStr (mint 1 t)"
    using member_response(1) [of "mint 1 t" 0 historyData]
    by (simp add: frame_echo_def frame_data_def response_def)
  then have "calls (emit_message ?c (response (mint 1 t) 0 historyData)) =
      [\<lparr> echo = mint 1 t, action = asc ''get_group_msg_history'', timer = None,
          listening = False, promise = Resolved historyData \<rparr>]"
    by (simp add: emit_message_def c handler_conv settle_with_def response_result_def)
  then show ?thesis
    by (simp add: await_request_def)
qed

lemmas fetch_eval = fetch_main_def parseArgs_fetch_def env0_def fetch_argv_def env_or_def
  present_def next_arg_def num_or_def parseInt_arg_def json_num_def history_params_def conn0_def sendRequest_def incr_def mint_def
  await_request_def emit_message_def handler_def response_def response_result_def settle_with_def
  fetch_result_def rawMessages_def array_or_empty_def image_message_def

text \<open>
  Claim C7 as stated fails: asked for one message, the bus answers with a list of one
  item whose text is \<^verbatim>\<open>hi\<close> and whose \<^verbatim>\<open>time\<close> is beyond the range of dates. The
  item has non-empty extracted text, but \<^verbatim>\<open>toISOString\<close> throws while it is
  formatted, and the run ends with that error and no report.
\<close>

theorem unrenderable_item_fails_fetch:
  "nonempty_text plain_runtime (group_message 123 10000000000000)
   \<and> fetch_main plain_runtime env0 (fetch_argv @ [asc ''--count'', asc ''1'']) 0
       [(7, Open),
        (1, Message (response (asc ''req_1_7'') 0 (JArr [group_message 123 10000000000000])))] =
     FFinished (ErrorExit (Uncaught RangeError))"
  by (simp add: nonempty_text_def fetch_eval collect_eval)

text \<open>
  Claim C7, amended. Let the formatter raise on no item of the list \<open>items\<close>. Then the
  statements after the request give the same report for the list itself and for an
  object whose \<^verbatim>\<open>messages\<close> field holds it; the run that opens, sends the request
  and receives the successful response ends with that report; the report is a success,
  its \<^verbatim>\<open>fetched_count\<close> is the number of items with non-empty extracted text, which
  is the number of its messages, and its \<^verbatim>\<open>requested_count\<close> is the count asked for.
\<close>

theorem fetch_counts_nonempty_items:
  "list_all (formats rt) items \<longrightarrow>
     (\<exists>r. fetch_result rt a now (JArr items) = Inr r
        \<and> (member (JObj kvs) (asc ''messages'') = JArr items \<longrightarrow>
             fetch_result rt a now (JObj kvs) = Inr r)
        \<and> foldl (fetch_step rt a) FConnecting
             [(t, Open), (now, Message (response (mint 1 t) 0 (JArr items)))] = FFinished (Report r)
        \<and> success r
        \<and> fetched_count r = length (filter (nonempty_text rt) items)
        \<and> length (messages r) = fetched_count r
        \<and> requested_count r = count a)"
proof
  assume ok: "list_all (formats rt) items"
  obtain r where r: "fetch_result rt a now (JArr items) = Inr r" "success r"
      "fetched_count r = length (filter (nonempty_text rt) items)"
      "length (messages r) = fetched_count r" "requested_count r = count a"
    using fetch_result_counts [OF ok rawMessages_list] by blast
  have nested: "member (JObj kvs) (asc ''messages'') = JArr items \<longrightarrow>
      fetch_result rt a now (JObj kvs) = Inr r"
    using r(1) by (simp add: fetch_result_def rawMessages_list rawMessages_nested)
  have run: "foldl (fetch_step rt a) FConnecting
      [(t, Open), (now, Message (response (mint 1 t) 0 (JArr items)))] = FFinished (Report r)"
    unfolding fetch_open_response using r(1) by simp
  from r nested run
  show "\<exists>r. fetch_result rt a now (JArr items) = Inr r
        \<and> (member (JObj kvs) (asc ''messages'') = JArr items \<longrightarrow>
             fetch_result rt a now (JObj kvs) = Inr r)
        \<and> foldl (fetch_step rt a) FConnecting
             [(t, Open), (now, Message (response (mint 1 t) 0 (JArr items)))] = FFinished (Report r)
        \<and> success r
        \<and> fetched_count r = length (filter (nonempty_text rt) items)
        \<and> length (messages r) = fetched_count r
        \<and> requested_count r = count a"
    by blast
qed

theorem fetch_counts_nonempty_items_witness:
  "list_all (formats plain_runtime) [group_message 123 1, image_message, group_message 123 2]
   \<and> length (filter (nonempty_text plain_runtime) [group_message 123 1, image_message, group_message 123 2]) = 2
   \<and> fetch_main plain_runtime env0 (fetch_argv @ [asc ''--count'', asc ''3'']) 0
       [(7, Open),
        (1, Message (response (asc ''req_1_7'') 0
              (JObj [(asc ''messages'',
                      JArr [group_message 123 1, image_message, group_message 123 2])])))] =
     FFinished (Report \<lparr> success = True, group_id = Some (asc ''123''),
                          messages = [hi_record 1, hi_record 2],
                          fetched_count = 2, requested_count = Finite 3, fetch_time = 8 \<rparr>)
   \<and> fetch_result plain_runtime (fetch_args0\<lparr>count := Finite 3\<rparr>) 8
        (JArr [group_message 123 1, image_message, group_message 123 2]) =
     Inr \<lparr> success = True, group_id = Some (asc ''123''),
           messages = [hi_record 1, hi_record 2],
           fetched_count = 2, requested_count = Finite 3, fetch_time = 8 \<rparr>"
  using fetch_counts_nonempty_items [of plain_runtime
      "[group_message 123 1, image_message, group_message 123 2]" "fetch_args0\<lparr>count := Finite 3\<rparr>" 8
      "[(asc ''messages'', JArr [group_message 123 1, image_message, group_message 123 2])]" 7]
  by (simp add: formats_def nonempty_text_def fetch_args0_def fetch_eval collect_eval)

end
